theory Spec2Isabelle
  imports Complex_Main
begin

section \<open>JavaScript values used by the rollover engine and the schedule grid\<close>

text \<open>
  Numbers that the program divides are modelled as exact rationals; numbers that the
  program only produces through \<^verbatim>\<open>Math.floor\<close>, \<^verbatim>\<open>Math.round\<close> or
  \<^verbatim>\<open>parseInt\<close> are integers.  \<^verbatim>\<open>Math.round(x)\<close> rounds halves upwards.
\<close>

definition Math_round :: "rat \<Rightarrow> int" where
  "Math_round x = \<lfloor>x + 1 / 2\<rfloor>"

text \<open>\<^verbatim>\<open>String(n)\<close> for an integer \<open>n\<close>, and \<^verbatim>\<open>s.padStart(2, '0')\<close>.\<close>

fun digits10 :: "nat \<Rightarrow> string" where
  "digits10 n =
     (if n < 10 then [''0123456789'' ! n]
      else digits10 (n div 10) @ [''0123456789'' ! (n mod 10)])"

declare digits10.simps [simp del]

definition String_of_int :: "int \<Rightarrow> string" where
  "String_of_int i = (if i < 0 then CHR ''-'' # digits10 (nat (- i)) else digits10 (nat i))"

definition padStart2 :: "string \<Rightarrow> string" where
  "padStart2 s = (if length s < 2 then replicate (2 - length s) CHR ''0'' @ s else s)"

text \<open>\<^verbatim>\<open>a || b\<close> on strings: the empty string is falsy.\<close>

definition or_else :: "string \<Rightarrow> string \<Rightarrow> string" where
  "or_else a b = (if a = [] then b else a)"

subsection \<open>The clock\<close>

text \<open>
  A \<^verbatim>\<open>Date\<close> object is represented by what the program reads from it: the local
  calendar fields and the UTC rendering \<^verbatim>\<open>toISOString()\<close>.  The month is
  zero-based, as in JavaScript.
\<close>

record jsdate =
  getFullYear :: int
  getMonth :: nat
  getDate :: nat
  toISOString :: string

text \<open>
  Day arithmetic of the proleptic Gregorian calendar, counted from 1970-01-01, which is
  what \<^verbatim>\<open>setDate\<close>, \<^verbatim>\<open>getDay\<close> and differences of local midnights use (the
  \<^verbatim>\<open>Math.round\<close> in \<^verbatim>\<open>getWeekNumber\<close> absorbs the hour a daylight-saving change
  adds to or removes from such a difference).
\<close>

definition days_from_civil :: "int \<Rightarrow> int \<Rightarrow> int \<Rightarrow> int" where
  "days_from_civil y m d =
     (let y' = (if m \<le> 2 then y - 1 else y);
          era = y' div 400;
          yoe = y' - era * 400;
          mp = (m + 9) mod 12;
          doy = (153 * mp + 2) div 5 + d - 1;
          doe = yoe * 365 + yoe div 4 - yoe div 100 + doy
      in era * 146097 + doe - 719468)"

definition year_of_days :: "int \<Rightarrow> int" where
  "year_of_days z =
     (let z' = z + 719468;
          era = z' div 146097;
          doe = z' - era * 146097;
          yoe = (doe - doe div 1460 + doe div 36524 - doe div 146096) div 365;
          doy = doe - (365 * yoe + yoe div 4 - yoe div 100);
          mp = (5 * doy + 2) div 153
      in yoe + era * 400 + (if mp < 10 then 0 else 1))"

definition day_number :: "jsdate \<Rightarrow> int" where
  "day_number d = days_from_civil (getFullYear d) (int (getMonth d) + 1) (int (getDate d))"

text \<open>\<^verbatim>\<open>getDay()\<close> of a day number: 0 is Sunday; 1970-01-01 was a Thursday.\<close>

definition getDay :: "int \<Rightarrow> int" where
  "getDay z = (z + 4) mod 7"

text \<open>The helper \<^verbatim>\<open>getTodayISO\<close> of the hook, reading the clock \<open>d\<close>.\<close>

definition getTodayISO :: "jsdate \<Rightarrow> string" where
  "getTodayISO d =
     String_of_int (getFullYear d) @ ''-'' @
     padStart2 (String_of_int (int (getMonth d) + 1)) @ ''-'' @
     padStart2 (String_of_int (int (getDate d)))"

text \<open>The helper \<^verbatim>\<open>getWeekNumber\<close> of the hook.\<close>

definition getWeekNumber :: "jsdate \<Rightarrow> int" where
  "getWeekNumber d =
     (let date0 = day_number d;
          date = date0 + 3 - (getDay date0 + 6) mod 7;
          week1 = days_from_civil (year_of_days date) 1 4
      in 1 + Math_round ((of_int (date - week1) - 3 + of_int ((getDay week1 + 6) mod 7)) / 7))"


section \<open>Data model\<close>

record hist_entry =
  he_date :: string
  he_done :: bool

text \<open>A habit; \<open>h_history\<close> is \<open>None\<close> where the object has no \<^verbatim>\<open>history\<close> field.\<close>

record habit =
  h_id :: string
  h_name :: string
  h_done :: bool
  h_history :: "hist_entry list option"

text \<open>
  A task; \<open>completedAt\<close> and \<open>archivedAt\<close> are \<open>None\<close> where the field is absent
  or \<^verbatim>\<open>null\<close>.
\<close>

record task =
  t_id :: string
  t_text :: string
  t_done :: bool
  t_time :: string
  completedAt :: "string option"
  archivedAt :: "string option"

text \<open>The task lists; \<open>completed\<close> is \<open>None\<close> where the object has no such field.\<close>

record task_lists =
  primary :: "task list"
  today :: "task list"
  thisWeek :: "task list"
  later :: "task list"
  completed :: "task list option"

record item_ref =
  ref_type :: string
  ref_id :: string
  ref_list :: "string option"

text \<open>
  A schedule event (\<^verbatim>\<open>{id, title, hour, minute, duration, type, itemRef, persistent}\<close>).
  Events created by a drop carry no \<^verbatim>\<open>persistent\<close> field: \<open>None\<close>.
\<close>

record sched_event =
  ev_id :: string
  title :: string
  hour :: int
  minute :: int
  duration :: int
  ev_type :: string
  itemRef :: "item_ref option"
  persistent :: "bool option"

text \<open>Truthiness of \<^verbatim>\<open>e.persistent\<close>.\<close>

definition is_persistent :: "sched_event \<Rightarrow> bool" where
  "is_persistent e = (persistent e = Some True)"

record reflections_rec =
  mattered :: string
  released :: string
  wait :: string

definition empty_reflections :: reflections_rec where
  "empty_reflections = \<lparr>mattered = [], released = [], wait = []\<rparr>"

subsection \<open>The key-value store\<close>

text \<open>
  \<^verbatim>\<open>localStorage\<close>, one slot for each key the rollover engine touches.  A slot is
  \<open>None\<close> while the key is absent.  The slots written with \<^verbatim>\<open>JSON.stringify(v)\<close>
  hold the value \<open>v\<close> itself; the two ledger keys hold plain strings.  \<open>ls_log\<close>
  records the keys of the \<^verbatim>\<open>setItem\<close> calls in the order in which they happened.
\<close>

datatype ls_key =
  K_habits | K_schedEvents | K_tasks | K_gratitude | K_reflections
  | K_lastDailyResetISO | K_last_habit_reset_week

record storage =
  selah_habits :: "habit list option"
  selah_schedEvents :: "sched_event list option"
  selah_tasks :: "task_lists option"
  selah_gratitude :: "string option"
  selah_reflections :: "reflections_rec option"
  selah_lastDailyResetISO :: "string option"
  selah_last_habit_reset_week :: "string option"
  ls_log :: "ls_key list"

text \<open>\<^verbatim>\<open>localStorage.getItem(k) || ''\<close> on a string slot.\<close>

definition getItem_or_empty :: "string option \<Rightarrow> string" where
  "getItem_or_empty v = (case v of None \<Rightarrow> [] | Some s \<Rightarrow> s)"

text \<open>
  The state the rollover engine works on: the five pieces of component state behind
  the setters handed to the hook, and the store.
\<close>

record app_state =
  habits :: "habit list"
  schedEvents :: "sched_event list"
  tasks :: task_lists
  gratitude :: string
  reflections :: reflections_rec
  ls :: storage

section \<open>The rollover engine (hook \<^verbatim>\<open>useDailyReset\<close>)\<close>

text \<open>
  \<^verbatim>\<open>performDailyReset\<close> calls the state setters of the component and writes to the
  store.  A setter does not change the state at the call.  The component has no update
  pending when \<^verbatim>\<open>performDailyReset\<close> is called; the first setter call of a run then
  evaluates its updater function at the call, and every later setter call of the run
  queues its update.  The queued updates are applied, in the order of the calls, when
  the component renders after \<^verbatim>\<open>performDailyReset\<close> has returned.  The
  \<^verbatim>\<open>setItem\<close> calls for the habits, the events and the tasks stand inside the updater
  functions, so they happen when the updater runs; the other \<^verbatim>\<open>setItem\<close> calls are
  statements of \<^verbatim>\<open>performDailyReset\<close> itself.  The updates of different setters
  touch different parts of the state and of the store.  One reading \<open>now\<close> of the clock
  serves the whole run.  Each definition below is one setter update or one statement of
  the day block or of the week block.
\<close>

definition day_reset_habits :: "app_state \<Rightarrow> app_state" where
  "day_reset_habits s =
     (let reset = map (\<lambda>h. h\<lparr>h_done := False\<rparr>) (habits s)
      in s\<lparr>habits := reset,
            ls := (ls s)\<lparr>selah_habits := Some reset, ls_log := ls_log (ls s) @ [K_habits]\<rparr>\<rparr>)"

definition day_purge_events :: "app_state \<Rightarrow> app_state" where
  "day_purge_events s =
     (let persistent_evs = filter is_persistent (schedEvents s)
      in s\<lparr>schedEvents := persistent_evs,
            ls := (ls s)\<lparr>selah_schedEvents := Some persistent_evs,
                          ls_log := ls_log (ls s) @ [K_schedEvents]\<rparr>\<rparr>)"

text \<open>The stamp put on a task when it is archived.\<close>

definition archive_stamp :: "jsdate \<Rightarrow> task \<Rightarrow> task" where
  "archive_stamp now t =
     t\<lparr>archivedAt := Some (toISOString now),
        completedAt := Some (or_else (case completedAt t of None \<Rightarrow> [] | Some c \<Rightarrow> c)
                                     (toISOString now))\<rparr>"

text \<open>\<^verbatim>\<open>xs.slice(-n)\<close>: the last \<open>n\<close> elements, all of them when there are fewer.\<close>

definition slice_last :: "nat \<Rightarrow> 'a list \<Rightarrow> 'a list" where
  "slice_last n xs = (if length xs \<le> n then xs else drop (length xs - n) xs)"

definition completedTasks :: "jsdate \<Rightarrow> task_lists \<Rightarrow> task list" where
  "completedTasks now prev =
     map (archive_stamp now)
       (filter t_done (primary prev) @ filter t_done (today prev) @
        filter t_done (thisWeek prev) @ filter t_done (later prev))"

text \<open>\<^verbatim>\<open>prev.completed || []\<close>.\<close>

definition completed_or_empty :: "task_lists \<Rightarrow> task list" where
  "completed_or_empty prev = (case completed prev of None \<Rightarrow> [] | Some c \<Rightarrow> c)"

definition newTasks :: "jsdate \<Rightarrow> task_lists \<Rightarrow> task_lists" where
  "newTasks now prev =
     \<lparr>primary = filter (\<lambda>t. \<not> t_done t) (primary prev),
      today = filter (\<lambda>t. \<not> t_done t) (today prev),
      thisWeek = filter (\<lambda>t. \<not> t_done t) (thisWeek prev),
      later = filter (\<lambda>t. \<not> t_done t) (later prev),
      completed = Some (slice_last 100 (completed_or_empty prev @ completedTasks now prev))\<rparr>"

definition day_archive_tasks :: "jsdate \<Rightarrow> app_state \<Rightarrow> app_state" where
  "day_archive_tasks now s =
     (let nt = newTasks now (tasks s)
      in s\<lparr>tasks := nt,
            ls := (ls s)\<lparr>selah_tasks := Some nt, ls_log := ls_log (ls s) @ [K_tasks]\<rparr>\<rparr>)"

definition day_setGratitude :: "app_state \<Rightarrow> app_state" where
  "day_setGratitude s = s\<lparr>gratitude := []\<rparr>"

definition day_setReflections :: "app_state \<Rightarrow> app_state" where
  "day_setReflections s = s\<lparr>reflections := empty_reflections\<rparr>"

definition day_store_gratitude :: "app_state \<Rightarrow> app_state" where
  "day_store_gratitude s =
     s\<lparr>ls := (ls s)\<lparr>selah_gratitude := Some [], ls_log := ls_log (ls s) @ [K_gratitude]\<rparr>\<rparr>"

definition day_store_reflections :: "app_state \<Rightarrow> app_state" where
  "day_store_reflections s =
     s\<lparr>ls := (ls s)\<lparr>selah_reflections := Some empty_reflections,
                     ls_log := ls_log (ls s) @ [K_reflections]\<rparr>\<rparr>"

definition day_store_ledger :: "string \<Rightarrow> app_state \<Rightarrow> app_state" where
  "day_store_ledger todayISO s =
     s\<lparr>ls := (ls s)\<lparr>selah_lastDailyResetISO := Some todayISO,
                     ls_log := ls_log (ls s) @ [K_lastDailyResetISO]\<rparr>\<rparr>"

definition run_statements :: "(app_state \<Rightarrow> app_state) list \<Rightarrow> app_state \<Rightarrow> app_state" where
  "run_statements fs s = fold (\<lambda>f x. f x) fs s"

text \<open>The test that guards the day block.\<close>

definition day_due :: "jsdate \<Rightarrow> app_state \<Rightarrow> bool" where
  "day_due now s =
     (getItem_or_empty (selah_lastDailyResetISO (ls s)) \<noteq> getTodayISO now)"

text \<open>
  What the day block does during the call, in program order: the updater of
  \<^verbatim>\<open>setHabits\<close>, which is the first setter call, and the three \<^verbatim>\<open>setItem\<close>
  statements at the end of the block.
\<close>

definition day_call_statements :: "jsdate \<Rightarrow> (app_state \<Rightarrow> app_state) list" where
  "day_call_statements now =
     [day_reset_habits, day_store_gratitude, day_store_reflections,
      day_store_ledger (getTodayISO now)]"

text \<open>
  The updates the day block queues, in the order of the setter calls:
  \<^verbatim>\<open>setSchedEvents\<close>, \<^verbatim>\<open>setTasks\<close>, \<^verbatim>\<open>setGratitude\<close>, \<^verbatim>\<open>setReflections\<close>.
\<close>

definition day_queued_updates :: "jsdate \<Rightarrow> (app_state \<Rightarrow> app_state) list" where
  "day_queued_updates now =
     [day_purge_events, day_archive_tasks now, day_setGratitude, day_setReflections]"

text \<open>The week block.\<close>

definition week_reset_habits :: "app_state \<Rightarrow> app_state" where
  "week_reset_habits s =
     (let reset = map (\<lambda>h. h\<lparr>h_done := False,
                              h_history := Some (case h_history h of None \<Rightarrow> [] | Some x \<Rightarrow> x)\<rparr>)
                      (habits s)
      in s\<lparr>habits := reset,
            ls := (ls s)\<lparr>selah_habits := Some reset, ls_log := ls_log (ls s) @ [K_habits]\<rparr>\<rparr>)"

definition week_store_ledger :: "string \<Rightarrow> app_state \<Rightarrow> app_state" where
  "week_store_ledger wk s =
     s\<lparr>ls := (ls s)\<lparr>selah_last_habit_reset_week := Some wk,
                     ls_log := ls_log (ls s) @ [K_last_habit_reset_week]\<rparr>\<rparr>"

definition week_due :: "jsdate \<Rightarrow> app_state \<Rightarrow> bool" where
  "week_due now s =
     (getItem_or_empty (selah_last_habit_reset_week (ls s)) \<noteq> String_of_int (getWeekNumber now))"

text \<open>
  What the week block does during the call and what it queues.  Its \<^verbatim>\<open>setHabits\<close>
  call is the first setter call of the run when the day block did not run, and a
  later one (\<open>pending\<close>) when it did.
\<close>

definition week_call_statements :: "bool \<Rightarrow> jsdate \<Rightarrow> (app_state \<Rightarrow> app_state) list" where
  "week_call_statements pending now =
     (if pending then [] else [week_reset_habits]) @
     [week_store_ledger (String_of_int (getWeekNumber now))]"

definition week_queued_updates :: "bool \<Rightarrow> (app_state \<Rightarrow> app_state) list" where
  "week_queued_updates pending = (if pending then [week_reset_habits] else [])"

text \<open>
  The call of \<^verbatim>\<open>performDailyReset\<close>: the day check, then the week check.  The
  result is the state when the function returns, and the queue of updates still to be
  applied.
\<close>

definition performDailyReset_call ::
    "jsdate \<Rightarrow> app_state \<Rightarrow> app_state \<times> (app_state \<Rightarrow> app_state) list" where
  "performDailyReset_call now s =
     (let dayDue = day_due now s;
          s1 = (if dayDue then run_statements (day_call_statements now) s else s);
          q1 = (if dayDue then day_queued_updates now else []);
          weekDue = week_due now s1;
          s2 = (if weekDue then run_statements (week_call_statements dayDue now) s1 else s1);
          q2 = (if weekDue then week_queued_updates dayDue else [])
      in (s2, q1 @ q2))"

text \<open>
  One run of \<^verbatim>\<open>performDailyReset\<close> to the end: the call, then the queued updates.
\<close>

definition performDailyReset :: "jsdate \<Rightarrow> app_state \<Rightarrow> app_state" where
  "performDailyReset now s =
     run_statements (snd (performDailyReset_call now s)) (fst (performDailyReset_call now s))"


section \<open>The rollover of the application component\<close>

text \<open>
  The application component has its own \<^verbatim>\<open>performDailyReset\<close>: the same day block
  without the task archival, written through \<^verbatim>\<open>save\<close>, and no week block.
  \<^verbatim>\<open>load('lastDailyResetISO', '')\<close> gives the stored string, or \<^verbatim>\<open>''\<close> when the key
  is absent.  Its setter calls behave as those of the hook: the updater of
  \<^verbatim>\<open>setHabits\<close> runs at the call, the updates of \<^verbatim>\<open>setSchedEvents\<close>,
  \<^verbatim>\<open>setGratitude\<close> and \<^verbatim>\<open>setReflections\<close> are queued.
\<close>

definition app_call_statements :: "jsdate \<Rightarrow> (app_state \<Rightarrow> app_state) list" where
  "app_call_statements now =
     [day_reset_habits, day_store_gratitude, day_store_reflections,
      day_store_ledger (getTodayISO now)]"

definition app_queued_updates :: "(app_state \<Rightarrow> app_state) list" where
  "app_queued_updates = [day_purge_events, day_setGratitude, day_setReflections]"

definition app_performDailyReset :: "jsdate \<Rightarrow> app_state \<Rightarrow> app_state" where
  "app_performDailyReset now s =
     (if day_due now s
      then run_statements app_queued_updates (run_statements (app_call_statements now) s)
      else s)"

section \<open>The schedule view (component \<^verbatim>\<open>OrderView\<close>)\<close>

subsection \<open>Strings\<close>

definition is_ws :: "char \<Rightarrow> bool" where
  "is_ws c = (c \<in> set [CHR '' '', CHR 0x09, CHR 0x0A, CHR 0x0B, CHR 0x0C, CHR 0x0D])"

text \<open>\<^verbatim>\<open>s.trim()\<close>.\<close>

definition trim :: "string \<Rightarrow> string" where
  "trim s = rev (dropWhile is_ws (rev (dropWhile is_ws s)))"

definition hex_digit :: "char \<Rightarrow> nat option" where
  "hex_digit = map_of
     [(CHR ''0'', 0), (CHR ''1'', 1), (CHR ''2'', 2), (CHR ''3'', 3), (CHR ''4'', 4),
      (CHR ''5'', 5), (CHR ''6'', 6), (CHR ''7'', 7), (CHR ''8'', 8), (CHR ''9'', 9),
      (CHR ''a'', 10), (CHR ''b'', 11), (CHR ''c'', 12), (CHR ''d'', 13), (CHR ''e'', 14),
      (CHR ''f'', 15), (CHR ''A'', 10), (CHR ''B'', 11), (CHR ''C'', 12), (CHR ''D'', 13),
      (CHR ''E'', 14), (CHR ''F'', 15)]"

definition digit_in :: "nat \<Rightarrow> char \<Rightarrow> bool" where
  "digit_in radix c = (case hex_digit c of None \<Rightarrow> False | Some v \<Rightarrow> v < radix)"

definition digits_value :: "nat \<Rightarrow> string \<Rightarrow> nat" where
  "digits_value radix ds =
     foldl (\<lambda>a c. radix * a + (case hex_digit c of None \<Rightarrow> 0 | Some v \<Rightarrow> v)) 0 ds"

text \<open>
  \<^verbatim>\<open>parseInt(s)\<close> without a radix: leading white space and a sign are skipped, a
  prefix \<^verbatim>\<open>0x\<close> selects base 16, the longest run of digits is read, and the result
  is \<^verbatim>\<open>NaN\<close> (\<open>None\<close>) when there is no digit.
\<close>

definition parseInt :: "string \<Rightarrow> int option" where
  "parseInt s =
     (let t = dropWhile is_ws s;
          neg = (take 1 t = ''-'');
          u = (if take 1 t = ''-'' \<or> take 1 t = ''+'' then drop 1 t else t);
          hex = (take 2 u = ''0x'' \<or> take 2 u = ''0X'');
          radix = (if hex then 16 else 10);
          ds = takeWhile (digit_in radix) (if hex then drop 2 u else u)
      in if ds = [] then None
         else Some ((if neg then - 1 else 1) * int (digits_value radix ds)))"

text \<open>\<^verbatim>\<open>parseInt(s) || d\<close>: \<^verbatim>\<open>NaN\<close> and \<^verbatim>\<open>0\<close> are falsy.\<close>

definition parseInt_or :: "string \<Rightarrow> int \<Rightarrow> int" where
  "parseInt_or s d = (case parseInt s of None \<Rightarrow> d | Some n \<Rightarrow> if n = 0 then d else n)"

text \<open>The helper \<^verbatim>\<open>fmtTimeSlot\<close>.\<close>

definition fmtTimeSlot :: "int \<Rightarrow> int \<Rightarrow> string" where
  "fmtTimeSlot h m =
     (let hour12 = (if h = 0 then 12 else if h > 12 then h - 12 else h);
          ampm = (if h < 12 then ''AM'' else ''PM'')
      in String_of_int hour12 @ '':'' @ padStart2 (String_of_int m) @ '' '' @ ampm)"

subsection \<open>Component state\<close>

definition HOUR_HEIGHT :: rat where
  "HOUR_HEIGHT = 64"

definition GRID_TOP_PADDING :: rat where
  "GRID_TOP_PADDING = 6"

text \<open>What \<^verbatim>\<open>getBoundingClientRect()\<close> of the grid gives.\<close>

record rect =
  rect_top :: rat
  rect_left :: rat

record popover_rec =
  mode :: string
  pop_event :: "sched_event option"
  pop_x :: rat
  pop_y :: rat

record drop_preview =
  dp_top :: rat
  dp_height :: rat
  dp_time :: string

record drag_label =
  dl_x :: rat
  dl_y :: rat
  dl_time :: string

text \<open>
  The props and the state of the component that the handlers read or write.
  \<open>gridRef\<close> is \<open>None\<close> while the grid is not mounted, and otherwise holds the
  rectangle of the grid.
\<close>

record order_view =
  ov_tasks :: task_lists
  ov_habits :: "habit list"
  ov_schedEvents :: "sched_event list"
  startH :: int
  len :: int
  popover :: "popover_rec option"
  popTitle :: string
  popDuration :: int
  popHour :: int
  popMinute :: int
  customDur :: string
  popType :: string
  popItemRef :: "string option"
  popPersistent :: bool
  dropPreview :: "drop_preview option"
  isDraggingBlock :: "string option"
  dragLabel :: "drag_label option"
  gridRef :: "rect option"

text \<open>
  The object a drag carries in \<^verbatim>\<open>dataTransfer\<close> under \<^verbatim>\<open>application/json\<close>, as
  \<^verbatim>\<open>JSON.parse\<close> returns it: the parse throws, or gives \<^verbatim>\<open>null\<close>, or gives a value
  whose fields are read (an absent field is \<open>None\<close>).
\<close>

record drag_payload =
  p_type :: "string option"
  p_taskId :: "string option"
  p_habitId :: "string option"
  p_blockId :: "string option"
  p_title :: "string option"
  p_duration :: "int option"

datatype parsed_json = ParseError | ParsedNull | ParsedValue drag_payload

record drag_event =
  clientX :: rat
  clientY :: rat
  dt_types :: "string list"
  dt_json :: parsed_json

subsection \<open>The task picker list\<close>

record tagged_task =
  tt_task :: task
  tt_list :: string
  tt_listLabel :: string

definition allTasks :: "task_lists \<Rightarrow> tagged_task list" where
  "allTasks ts =
     filter (\<lambda>t. \<not> t_done (tt_task t))
       (map (\<lambda>t. \<lparr>tt_task = t, tt_list = ''primary'', tt_listLabel = ''Primary''\<rparr>) (primary ts) @
        map (\<lambda>t. \<lparr>tt_task = t, tt_list = ''today'', tt_listLabel = ''Today''\<rparr>) (today ts) @
        map (\<lambda>t. \<lparr>tt_task = t, tt_list = ''thisWeek'', tt_listLabel = ''This Week''\<rparr>) (thisWeek ts) @
        map (\<lambda>t. \<lparr>tt_task = t, tt_list = ''later'', tt_listLabel = ''Later''\<rparr>) (later ts))"

subsection \<open>Grid geometry\<close>

text \<open>\<^verbatim>\<open>a % b\<close> on numbers: the remainder has the sign of \<open>a\<close>.\<close>

definition js_trunc :: "rat \<Rightarrow> int" where
  "js_trunc q = (if 0 \<le> q then \<lfloor>q\<rfloor> else \<lceil>q\<rceil>)"

definition js_rem :: "rat \<Rightarrow> rat \<Rightarrow> rat" where
  "js_rem a b = a - b * of_int (js_trunc (a / b))"

text \<open>
  The body of \<^verbatim>\<open>getTimeFromY(y, rect)\<close>, with the hour height \<open>H\<close>, the start hour
  and the number of hours as arguments.
\<close>

definition timeFromY :: "rat \<Rightarrow> int \<Rightarrow> int \<Rightarrow> rat \<Rightarrow> rat \<Rightarrow> int \<times> int" where
  "timeFromY H sH nH y rtop =
     (let relY = y - rtop;
          adjustedY = max (0::rat) (relY - GRID_TOP_PADDING);
          usableHeight = (of_int nH :: rat) * H;
          clampedY = max (0::rat) (min adjustedY (usableHeight - 1));
          totalMinutes = (clampedY / H) * (60::rat);
          hourOffset = (\<lfloor>totalMinutes / (60::rat)\<rfloor> :: int);
          rawMinute = js_rem totalMinutes (60::rat);
          snappedMinute = Math_round (rawMinute / (5::rat)) * (5::int);
          finalHour0 = sH + hourOffset;
          finalMinute = (if snappedMinute \<ge> (60::int) then (0::int) else snappedMinute);
          finalHour1 = (if snappedMinute \<ge> (60::int) then min (finalHour0 + 1) (sH + nH - 1)
                        else finalHour0);
          finalHour = max sH (min finalHour1 (sH + nH - 1))
      in (finalHour, max (0::int) (min finalMinute (55::int))))"

definition getTimeFromY :: "order_view \<Rightarrow> rat \<Rightarrow> rect \<Rightarrow> int \<times> int" where
  "getTimeFromY s y r = timeFromY HOUR_HEIGHT (startH s) (len s) y (rect_top r)"

text \<open>
  The numbers \<^verbatim>\<open>top\<close> and \<^verbatim>\<open>Math.max(height, 24)\<close> that \<^verbatim>\<open>getBlockStyle\<close> renders
  with the suffix \<^verbatim>\<open>px\<close>; \<open>blockTop\<close> is its \<^verbatim>\<open>top\<close> with the hour height as an
  argument.
\<close>

definition blockTop :: "rat \<Rightarrow> int \<Rightarrow> int \<Rightarrow> int \<Rightarrow> rat" where
  "blockTop H sH h m =
     (let hoursFromStart = of_int (h - sH) + of_int m / 60
      in hoursFromStart * H + GRID_TOP_PADDING)"

definition getBlockStyle :: "order_view \<Rightarrow> sched_event \<Rightarrow> rat \<times> rat" where
  "getBlockStyle s ev =
     (let top = blockTop HOUR_HEIGHT (startH s) (hour ev) (minute ev);
          height = (of_int (duration ev) / 60) * HOUR_HEIGHT
      in (top, max height 24))"

definition snapToIncrement :: "int \<Rightarrow> int" where
  "snapToIncrement minutes =
     (let snapped = Math_round (of_int minutes / 5) * 5
      in if snapped \<ge> 60 then 55 else snapped)"

subsection \<open>Drag handlers\<close>

text \<open>The duration \<^verbatim>\<open>handleScheduleDragOver\<close> reads from the dragged item.\<close>

definition dragOver_duration :: "drag_event \<Rightarrow> int" where
  "dragOver_duration e =
     (if ''application/json'' \<in> set (dt_types e)
      then (case dt_json e of
              ParseError \<Rightarrow> 60
            | ParsedNull \<Rightarrow> 60
            | ParsedValue d \<Rightarrow>
                (let duration = (case p_duration d of None \<Rightarrow> 60
                                 | Some n \<Rightarrow> if n = 0 then 60 else n)
                 in if p_type d = Some ''habit'' then 15 else duration))
      else 60)"

definition handleScheduleDragOver :: "drag_event \<Rightarrow> order_view \<Rightarrow> order_view" where
  "handleScheduleDragOver e s =
     (case gridRef s of
        None \<Rightarrow> s
      | Some r \<Rightarrow>
          (let hm = getTimeFromY s (clientY e) r;
               duration = dragOver_duration e;
               hoursFromStart = of_int (fst hm - startH s) + of_int (snd hm) / 60;
               top = hoursFromStart * HOUR_HEIGHT + GRID_TOP_PADDING;
               height = max ((of_int duration / 60) * HOUR_HEIGHT) 24;
               maxTop = of_int (len s) * HOUR_HEIGHT - height
           in s\<lparr>dropPreview := Some \<lparr>dp_top = max 0 (min top maxTop), dp_height = height,
                                      dp_time = fmtTimeSlot (fst hm) (snd hm)\<rparr>,
                 dragLabel := Some \<lparr>dl_x = clientX e, dl_y = clientY e,
                                    dl_time = fmtTimeSlot (fst hm) (snd hm)\<rparr>\<rparr>))"

text \<open>
  \<^verbatim>\<open>handleScheduleDragLeave\<close>; \<open>inside\<close> says whether the element the pointer went
  to lies within the grid.
\<close>

definition handleScheduleDragLeave :: "bool \<Rightarrow> order_view \<Rightarrow> order_view" where
  "handleScheduleDragLeave inside s =
     (if (case gridRef s of None \<Rightarrow> True | Some r \<Rightarrow> \<not> inside)
      then s\<lparr>dropPreview := None, dragLabel := None\<rparr> else s)"

text \<open>What \<^verbatim>\<open>handleBlockDragStart\<close> puts into \<^verbatim>\<open>dataTransfer\<close>, read back.\<close>

definition blockDragPayload :: "sched_event \<Rightarrow> drag_payload" where
  "blockDragPayload ev =
     \<lparr>p_type = Some ''scheduleBlock'', p_taskId = None, p_habitId = None,
      p_blockId = Some (ev_id ev), p_title = Some (title ev), p_duration = Some (duration ev)\<rparr>"

definition handleBlockDragStart :: "sched_event \<Rightarrow> order_view \<Rightarrow> order_view" where
  "handleBlockDragStart ev s = s\<lparr>isDraggingBlock := Some (ev_id ev)\<rparr>"

definition handleBlockDragEnd :: "order_view \<Rightarrow> order_view" where
  "handleBlockDragEnd s = s\<lparr>isDraggingBlock := None, dropPreview := None, dragLabel := None\<rparr>"

text \<open>
  \<^verbatim>\<open>handleScheduleDrop\<close>; \<open>newId\<close> is what \<^verbatim>\<open>genId()\<close> returns.  An exception
  inside the \<^verbatim>\<open>try\<close> block is caught and logged, so those branches return the state
  with only the preview cleared.
\<close>

definition moveBlock :: "order_view \<Rightarrow> int \<times> int \<Rightarrow> drag_payload \<Rightarrow> int \<times> int" where
  "moveBlock s hm d =
     (let workdayMinutes = len s * 60;
          newTotalMinutes = (fst hm - startH s) * 60 + snd hm;
          duration = (case p_duration d of None \<Rightarrow> 30 | Some n \<Rightarrow> if n = 0 then 30 else n);
          clampedMinutes = max 0 (min newTotalMinutes (workdayMinutes - duration));
          newHour = startH s + clampedMinutes div 60;
          newMinute = snapToIncrement (clampedMinutes mod 60)
      in (newHour, newMinute))"

definition handleScheduleDrop :: "string \<Rightarrow> drag_event \<Rightarrow> order_view \<Rightarrow> order_view" where
  "handleScheduleDrop newId e s =
     (let s0 = s\<lparr>dropPreview := None, dragLabel := None\<rparr>
      in case gridRef s of
           None \<Rightarrow> s0
         | Some r \<Rightarrow>
             (let hm = getTimeFromY s (clientY e) r
              in case dt_json e of
                   ParseError \<Rightarrow> s0
                 | ParsedNull \<Rightarrow> s0
                 | ParsedValue d \<Rightarrow>
                     if p_type d = Some ''task'' then
                       (case find (\<lambda>t. Some (t_id (tt_task t)) = p_taskId d) (allTasks (ov_tasks s)) of
                          None \<Rightarrow> s0
                        | Some tk \<Rightarrow>
                            s0\<lparr>ov_schedEvents := ov_schedEvents s @
                                 [\<lparr>ev_id = newId, title = t_text (tt_task tk),
                                   hour = fst hm, minute = snd hm,
                                   duration = parseInt_or (t_time (tt_task tk)) 30,
                                   ev_type = ''task'',
                                   itemRef = Some \<lparr>ref_type = ''task'', ref_id = t_id (tt_task tk),
                                                   ref_list = Some (tt_list tk)\<rparr>,
                                   persistent = None\<rparr>]\<rparr>)
                     else if p_type d = Some ''habit'' then
                       (case find (\<lambda>h. Some (h_id h) = p_habitId d) (ov_habits s) of
                          None \<Rightarrow> s0
                        | Some hb \<Rightarrow>
                            s0\<lparr>ov_schedEvents := ov_schedEvents s @
                                 [\<lparr>ev_id = newId, title = h_name hb,
                                   hour = fst hm, minute = snd hm,
                                   duration = 15,
                                   ev_type = ''habit'',
                                   itemRef = Some \<lparr>ref_type = ''habit'', ref_id = h_id hb,
                                                   ref_list = None\<rparr>,
                                   persistent = None\<rparr>]\<rparr>)
                     else if p_type d = Some ''scheduleBlock'' \<and> p_blockId d \<noteq> None
                             \<and> p_blockId d \<noteq> Some [] then
                       s0\<lparr>ov_schedEvents :=
                            map (\<lambda>ev. if Some (ev_id ev) = p_blockId d
                                       then ev\<lparr>hour := fst (moveBlock s hm d),
                                               minute := snd (moveBlock s hm d)\<rparr>
                                       else ev)
                                (ov_schedEvents s)\<rparr>
                     else s0))"

subsection \<open>The editor\<close>

text \<open>The duration \<^verbatim>\<open>saveEvent\<close> commits.\<close>

definition finalDuration :: "order_view \<Rightarrow> int" where
  "finalDuration s =
     (if customDur s \<noteq> [] then min 600 (max 1 (parseInt_or (customDur s) 30))
      else popDuration s)"

text \<open>The title and the item reference \<^verbatim>\<open>saveEvent\<close> settles on.\<close>

definition save_title_ref :: "order_view \<Rightarrow> string \<times> item_ref option" where
  "save_title_ref s =
     (let ref = (case popItemRef s of None \<Rightarrow> [] | Some x \<Rightarrow> x)
      in if popType s = ''task'' \<and> ref \<noteq> [] then
           (case find (\<lambda>t. tt_list t @ '':'' @ t_id (tt_task t) = ref) (allTasks (ov_tasks s)) of
              None \<Rightarrow> (trim (popTitle s), None)
            | Some tk \<Rightarrow>
                (t_text (tt_task tk),
                 Some \<lparr>ref_type = ''task'', ref_id = t_id (tt_task tk),
                       ref_list = Some (tt_list tk)\<rparr>))
         else if popType s = ''habit'' \<and> ref \<noteq> [] then
           (case find (\<lambda>h. h_id h = ref) (ov_habits s) of
              None \<Rightarrow> (trim (popTitle s), None)
            | Some hb \<Rightarrow>
                (h_name hb, Some \<lparr>ref_type = ''habit'', ref_id = h_id hb, ref_list = None\<rparr>))
         else (trim (popTitle s), None))"

text \<open>
  \<^verbatim>\<open>saveEvent\<close>; \<open>newId\<close> is what \<^verbatim>\<open>genId()\<close> returns.  The result is \<open>None\<close>
  where the function throws a \<^verbatim>\<open>TypeError\<close>: reading \<^verbatim>\<open>popover.mode\<close> with no
  popover, or \<^verbatim>\<open>popover.event.id\<close> with no event while mapping over a non-empty list.
\<close>

definition saveEvent :: "string \<Rightarrow> order_view \<Rightarrow> order_view option" where
  "saveEvent newId s =
     (let tr = save_title_ref s
      in if fst tr = [] then Some s
         else case popover s of
                None \<Rightarrow> None
              | Some p \<Rightarrow>
                  if mode p = ''add'' then
                    Some (s\<lparr>ov_schedEvents := ov_schedEvents s @
                              [\<lparr>ev_id = newId, title = fst tr,
                                hour = popHour s, minute = popMinute s,
                                duration = finalDuration s,
                                ev_type = popType s,
                                itemRef = snd tr,
                                persistent = Some (popPersistent s)\<rparr>],
                            popover := None\<rparr>)
                  else
                    (case pop_event p of
                       None \<Rightarrow> if ov_schedEvents s = [] then Some (s\<lparr>popover := None\<rparr>) else None
                     | Some pe \<Rightarrow>
                         Some (s\<lparr>ov_schedEvents :=
                                   map (\<lambda>ev. if ev_id ev = ev_id pe
                                              then ev\<lparr>title := fst tr,
                                                      hour := popHour s, minute := popMinute s,
                                                      duration := finalDuration s,
                                                      ev_type := popType s,
                                                      itemRef := snd tr,
                                                      persistent := Some (popPersistent s)\<rparr>
                                              else ev)
                                       (ov_schedEvents s),
                                 popover := None\<rparr>)))"


subsection \<open>Dispatch of drag gestures\<close>

text \<open>
  The gestures of a drag that is in progress, each handled by the handler the grid or
  the block registers for it.
\<close>

datatype drag_action =
  BlockDragStart sched_event
  | ScheduleDragOver drag_event
  | ScheduleDragLeave bool
  | BlockDragEnd

fun drag_step :: "drag_action \<Rightarrow> order_view \<Rightarrow> order_view" where
  "drag_step (BlockDragStart ev) s = handleBlockDragStart ev s"
| "drag_step (ScheduleDragOver e) s = handleScheduleDragOver e s"
| "drag_step (ScheduleDragLeave inside) s = handleScheduleDragLeave inside s"
| "drag_step BlockDragEnd s = handleBlockDragEnd s"

section \<open>Example data\<close>

definition ex_now :: jsdate where
  "ex_now = \<lparr>getFullYear = 2026, getMonth = 0, getDate = 20,
             toISOString = ''2026-01-20T09:00:00.000Z''\<rparr>"

definition ex_task :: "string \<Rightarrow> bool \<Rightarrow> task" where
  "ex_task i d = \<lparr>t_id = i, t_text = ''write'', t_done = d, t_time = ''15m'',
                  completedAt = None, archivedAt = None\<rparr>"

definition ex_event :: "string \<Rightarrow> bool option \<Rightarrow> sched_event" where
  "ex_event i p = \<lparr>ev_id = i, title = ''walk'', hour = 9, minute = 0, duration = 30,
                   ev_type = ''event'', itemRef = None, persistent = p\<rparr>"

definition ex_storage :: storage where
  "ex_storage = \<lparr>selah_habits = None, selah_schedEvents = None, selah_tasks = None,
                 selah_gratitude = None, selah_reflections = None,
                 selah_lastDailyResetISO = Some ''2026-01-18'',
                 selah_last_habit_reset_week = Some ''3'', ls_log = []\<rparr>"

definition ex_state :: app_state where
  "ex_state = \<lparr>habits = [\<lparr>h_id = ''1'', h_name = ''Morning prayer'', h_done = True,
                           h_history = None\<rparr>],
               schedEvents = [ex_event ''a'' (Some True), ex_event ''b'' (Some False),
                              ex_event ''c'' None],
               tasks = \<lparr>primary = [ex_task ''p'' False], today = [ex_task ''q'' True],
                        thisWeek = [], later = [], completed = Some []\<rparr>,
               gratitude = ''rain'',
               reflections = \<lparr>mattered = ''x'', released = ''y'', wait = ''z''\<rparr>,
               ls = ex_storage\<rparr>"

text \<open>A state whose archive is full, and one with 101 finished tasks in one list.\<close>

definition ex_full_archive :: app_state where
  "ex_full_archive =
     ex_state\<lparr>tasks := (tasks ex_state)\<lparr>completed := Some (replicate 100 (ex_task ''old'' True))\<rparr>\<rparr>"

definition ex_many_done :: app_state where
  "ex_many_done =
     ex_state\<lparr>tasks := (tasks ex_state)\<lparr>today :=
        ex_task ''first'' True # replicate 100 (ex_task ''next'' True)\<rparr>\<rparr>"

definition ex_view :: order_view where
  "ex_view = \<lparr>ov_tasks = \<lparr>primary = [ex_task ''p'' False], today = [ex_task ''q'' True],
                           thisWeek = [], later = [], completed = Some []\<rparr>,
              ov_habits = [\<lparr>h_id = ''1'', h_name = ''Morning prayer'', h_done = False,
                            h_history = None\<rparr>],
              ov_schedEvents = [ex_event ''a'' (Some True), ex_event ''b'' None],
              startH = 9, len = 8,
              popover = Some \<lparr>mode = ''add'', pop_event = None, pop_x = 0, pop_y = 0\<rparr>,
              popTitle = ''Lunch'', popDuration = 30, popHour = 12, popMinute = 0,
              customDur = ''7'', popType = ''event'', popItemRef = None,
              popPersistent = False,
              dropPreview = None, isDraggingBlock = None, dragLabel = None,
              gridRef = Some \<lparr>rect_top = 100, rect_left = 0\<rparr>\<rparr>"

definition ex_drag :: "rat \<Rightarrow> drag_payload \<Rightarrow> drag_event" where
  "ex_drag y d = \<lparr>clientX = 50, clientY = y, dt_types = [''application/json''],
                  dt_json = ParsedValue d\<rparr>"

definition ex_habit_payload :: drag_payload where
  "ex_habit_payload = \<lparr>p_type = Some ''habit'', p_taskId = None, p_habitId = Some ''1'',
                        p_blockId = None, p_title = None, p_duration = None\<rparr>"

text \<open>A view whose only event lasts 7 minutes.\<close>

definition ex_view7 :: order_view where
  "ex_view7 = ex_view\<lparr>ov_schedEvents := [(ex_event ''b'' None)\<lparr>duration := 7\<rparr>]\<rparr>"

text \<open>The example state with the week key of the current week.\<close>

definition ex_week_current :: app_state where
  "ex_week_current = ex_state\<lparr>ls := ex_storage\<lparr>selah_last_habit_reset_week := Some ''4''\<rparr>\<rparr>"

text \<open>
  Two finished tasks: \<open>b\<close>, in the primary list, finished at 10:00, and \<open>a\<close>, in
  today's list, finished at 09:00 of the same day.  After their rollover, 99 further
  tasks are finished on the next day.
\<close>

definition ex_task_at :: "string \<Rightarrow> string \<Rightarrow> task" where
  "ex_task_at i c = (ex_task i True)\<lparr>completedAt := Some c\<rparr>"

definition ex_two_done :: app_state where
  "ex_two_done =
     ex_state\<lparr>tasks := \<lparr>primary = [ex_task_at ''b'' ''2026-01-19T10:00:00.000Z''],
                         today = [ex_task_at ''a'' ''2026-01-19T09:00:00.000Z''],
                         thisWeek = [], later = [], completed = Some []\<rparr>\<rparr>"

definition ex_later :: jsdate where
  "ex_later = \<lparr>getFullYear = 2026, getMonth = 0, getDate = 21,
               toISOString = ''2026-01-21T09:00:00.000Z''\<rparr>"

definition ex_next_day :: app_state where
  "ex_next_day =
     (performDailyReset ex_now ex_two_done)
       \<lparr>tasks := (tasks (performDailyReset ex_now ex_two_done))
          \<lparr>today := replicate 99 (ex_task_at ''c'' ''2026-01-20T12:00:00.000Z'')\<rparr>\<rparr>"

text \<open>A view whose only event lasts 600 minutes.\<close>

definition ex_view600 :: order_view where
  "ex_view600 = ex_view\<lparr>ov_schedEvents := [(ex_event ''b'' None)\<lparr>duration := 600\<rparr>]\<rparr>"

section \<open>Properties of the rollover engine\<close>

lemmas stmt_defs =
  run_statements_def day_call_statements_def day_queued_updates_def
  week_call_statements_def week_queued_updates_def
  day_reset_habits_def day_purge_events_def day_archive_tasks_def
  day_setGratitude_def day_setReflections_def day_store_gratitude_def
  day_store_reflections_def day_store_ledger_def
  week_reset_habits_def week_store_ledger_def Let_def

lemma week_due_after_day_call:
  "week_due now (run_statements (day_call_statements now) s) = week_due now s"
  by (simp add: week_due_def stmt_defs)

lemma run_statements_list:
  "run_statements [] s = s"
  "run_statements (f # fs) s = run_statements fs (f s)"
  "run_statements (fs @ gs) s = run_statements gs (run_statements fs s)"
  by (simp_all add: run_statements_def)

lemma tick_cases:
  "performDailyReset now s =
     (if day_due now s then
        (if week_due now s
         then run_statements (day_queued_updates now @ [week_reset_habits])
                (week_store_ledger (String_of_int (getWeekNumber now))
                   (run_statements (day_call_statements now) s))
         else run_statements (day_queued_updates now)
                (run_statements (day_call_statements now) s))
      else (if week_due now s
            then week_store_ledger (String_of_int (getWeekNumber now)) (week_reset_habits s)
            else s))"
  by (simp add: performDailyReset_def performDailyReset_call_def week_due_after_day_call
      Let_def run_statements_list week_call_statements_def week_queued_updates_def)

lemma tick_ledger:
  "selah_lastDailyResetISO (ls (performDailyReset now s)) =
     (if day_due now s then Some (getTodayISO now) else selah_lastDailyResetISO (ls s))"
  by (simp add: tick_cases stmt_defs)

lemma tick_week_ledger:
  "selah_last_habit_reset_week (ls (performDailyReset now s)) =
     (if week_due now s then Some (String_of_int (getWeekNumber now))
      else selah_last_habit_reset_week (ls s))"
  by (simp add: tick_cases stmt_defs)

lemma not_day_due_after: "\<not> day_due now (performDailyReset now s)"
  by (simp add: day_due_def[of now "performDailyReset now s"] tick_ledger getItem_or_empty_def)
    (simp add: day_due_def getItem_or_empty_def)

lemma not_week_due_after: "\<not> week_due now (performDailyReset now s)"
  by (simp add: week_due_def[of now "performDailyReset now s"] tick_week_ledger
      getItem_or_empty_def)
    (simp add: week_due_def getItem_or_empty_def)

lemma tick_not_due: "\<not> day_due now s \<Longrightarrow> \<not> week_due now s \<Longrightarrow> performDailyReset now s = s"
  by (simp add: tick_cases)

lemma ex_today: "getTodayISO ex_now = ''2026-01-20''"
  by (simp add: getTodayISO_def ex_now_def String_of_int_def padStart2_def digits10.simps)

lemma ex_week: "String_of_int (getWeekNumber ex_now) = ''4''"
  by code_simp

lemma ev_id_ex_event: "ev_id (ex_event x p) = x"
  by (simp add: ex_event_def)

lemma ex_day_due: "day_due ex_now ex_state"
  by (simp add: day_due_def ex_today ex_state_def ex_storage_def getItem_or_empty_def)

text \<open>
  C1.  Calling the daily-reset check twice in succession with the same instant gives
  exactly the state that one call gives: habits, calendar events, tasks, reflections
  and the store with both ledger keys.
\<close>

theorem tick_idempotent:
  "performDailyReset now (performDailyReset now s) = performDailyReset now s"
  using not_day_due_after[of now s] not_week_due_after[of now s] by (rule tick_not_due)

theorem tick_idempotent_witness:
  "performDailyReset ex_now (performDailyReset ex_now ex_state) = performDailyReset ex_now ex_state
   \<and> selah_lastDailyResetISO (ls (performDailyReset ex_now ex_state)) = Some ''2026-01-20''"
proof -
  have "selah_lastDailyResetISO (ls (performDailyReset ex_now ex_state)) = Some ''2026-01-20''"
    using ex_day_due
    by (simp only: tick_ledger ex_today if_True)
  with tick_idempotent[of ex_now ex_state] show ?thesis by (rule conjI)
qed

lemma tick_due_fields:
  assumes "day_due now s"
  shows "schedEvents (performDailyReset now s) = filter is_persistent (schedEvents s)"
    and "tasks (performDailyReset now s) = newTasks now (tasks s)"
    and "gratitude (performDailyReset now s) = []"
    and "reflections (performDailyReset now s) = empty_reflections"
    and "list_all (\<lambda>h. \<not> h_done h) (habits (performDailyReset now s))"
    and "selah_lastDailyResetISO (ls (performDailyReset now s)) = Some (getTodayISO now)"
  using assms by (simp_all add: tick_cases stmt_defs list_all_iff)

lemma tick_habits_length: "length (habits (performDailyReset now s)) = length (habits s)"
  by (simp add: tick_cases stmt_defs)

lemma stale_ledger_irrelevant:
  assumes "day_due now s" and "getItem_or_empty k \<noteq> getTodayISO now"
  shows "performDailyReset now (s\<lparr>ls := (ls s)\<lparr>selah_lastDailyResetISO := k\<rparr>\<rparr>) = performDailyReset now s"
proof -
  let ?s' = "s\<lparr>ls := (ls s)\<lparr>selah_lastDailyResetISO := k\<rparr>\<rparr>"
  have d': "day_due now ?s'" using assms(2) by (simp add: day_due_def)
  have w': "week_due now ?s' = week_due now s" by (simp add: week_due_def)
  have c: "run_statements (day_call_statements now) ?s' = run_statements (day_call_statements now) s"
    by (simp add: stmt_defs)
  show ?thesis
    unfolding tick_cases[of now ?s'] tick_cases[of now s] using assms(1) d'
    by (simp only: w' c if_True)
qed

lemma slice_last_short: "length xs \<le> n \<Longrightarrow> slice_last n xs = xs"
  by (simp add: slice_last_def)

lemma slice_last_long: "n < length xs \<Longrightarrow> slice_last n xs = drop (length xs - n) xs"
  by (simp add: slice_last_def)

lemma length_slice_last: "length (slice_last n xs) = min n (length xs)"
  by (simp add: slice_last_def)

lemma archive_stamp_fields:
  "archivedAt (archive_stamp now t) = Some (toISOString now)"
  "completedAt (archive_stamp now t) \<noteq> None"
  "toISOString now \<noteq> [] \<Longrightarrow> completedAt (archive_stamp now t) \<noteq> Some []"
  "t_id (archive_stamp now t) = t_id t"
  by (simp_all add: archive_stamp_def or_else_def split: option.splits)

lemma newTasks_fields:
  "primary (newTasks now ts) = filter (\<lambda>t. \<not> t_done t) (primary ts)"
  "today (newTasks now ts) = filter (\<lambda>t. \<not> t_done t) (today ts)"
  "thisWeek (newTasks now ts) = filter (\<lambda>t. \<not> t_done t) (thisWeek ts)"
  "later (newTasks now ts) = filter (\<lambda>t. \<not> t_done t) (later ts)"
  "completed (newTasks now ts) = Some (slice_last 100 (completed_or_empty ts @ completedTasks now ts))"
  by (simp_all add: newTasks_def)

text \<open>
  C2 (as amended).  When the stored day key differs from today's date, however stale it
  is, one call of the daily-reset check gives the rolled-over state: every habit is
  unchecked, exactly the persistent events remain, every finished task has left its
  working list, the archive is the old archive followed by the stamped finished tasks
  and cut to its last 100 entries (so it holds all of them when they number at most
  100), the reflection fields are cleared and the day key is today's date.  The result
  does not depend on the stale value of the day key: missed days are not replayed.
\<close>

theorem day_rollover_complete:
  assumes "day_due now s"
  shows "list_all (\<lambda>h. \<not> h_done h) (habits (performDailyReset now s))
    \<and> schedEvents (performDailyReset now s) = filter is_persistent (schedEvents s)
    \<and> primary (tasks (performDailyReset now s)) = filter (\<lambda>t. \<not> t_done t) (primary (tasks s))
    \<and> today (tasks (performDailyReset now s)) = filter (\<lambda>t. \<not> t_done t) (today (tasks s))
    \<and> thisWeek (tasks (performDailyReset now s)) = filter (\<lambda>t. \<not> t_done t) (thisWeek (tasks s))
    \<and> later (tasks (performDailyReset now s)) = filter (\<lambda>t. \<not> t_done t) (later (tasks s))
    \<and> completed (tasks (performDailyReset now s)) =
          Some (slice_last 100 (completed_or_empty (tasks s) @ completedTasks now (tasks s)))
    \<and> (length (completed_or_empty (tasks s)) + length (completedTasks now (tasks s)) \<le> 100 \<longrightarrow>
          completed_or_empty (tasks (performDailyReset now s)) =
            completed_or_empty (tasks s) @ completedTasks now (tasks s))
    \<and> gratitude (performDailyReset now s) = []
    \<and> reflections (performDailyReset now s) = empty_reflections
    \<and> selah_lastDailyResetISO (ls (performDailyReset now s)) = Some (getTodayISO now)
    \<and> (\<forall>k. getItem_or_empty k \<noteq> getTodayISO now \<longrightarrow>
          performDailyReset now (s\<lparr>ls := (ls s)\<lparr>selah_lastDailyResetISO := k\<rparr>\<rparr>)
            = performDailyReset now s)"
proof -
  note f = tick_due_fields[OF assms]
  have cap: "length (completed_or_empty (tasks s)) + length (completedTasks now (tasks s)) \<le> 100 \<longrightarrow>
          completed_or_empty (tasks (performDailyReset now s)) =
            completed_or_empty (tasks s) @ completedTasks now (tasks s)"
    by (simp add: f(2) completed_or_empty_def[of "newTasks now (tasks s)"] newTasks_fields
        slice_last_short)
  have stale: "\<forall>k. getItem_or_empty k \<noteq> getTodayISO now \<longrightarrow>
          performDailyReset now (s\<lparr>ls := (ls s)\<lparr>selah_lastDailyResetISO := k\<rparr>\<rparr>)
            = performDailyReset now s"
    using stale_ledger_irrelevant[OF assms] by blast
  show ?thesis
    using f(5) f(1) f(3) f(4) f(6) cap stale by (simp add: f(2) newTasks_fields)
qed

text \<open>The scenario of 2026-01-18 followed by 2026-01-20.\<close>

theorem day_rollover_complete_witness:
  "day_due ex_now ex_state
   \<and> map h_done (habits (performDailyReset ex_now ex_state)) = [False]
   \<and> map ev_id (schedEvents (performDailyReset ex_now ex_state)) = [''a'']
   \<and> map t_id (today (tasks (performDailyReset ex_now ex_state))) = []
   \<and> map t_id (completed_or_empty (tasks (performDailyReset ex_now ex_state))) = [''q'']
   \<and> selah_lastDailyResetISO (ls (performDailyReset ex_now ex_state)) = Some ''2026-01-20''"
proof -
  have ev: "filter is_persistent (schedEvents ex_state) = [ex_event ''a'' (Some True)]"
    by (simp add: ex_state_def ex_event_def is_persistent_def)
  have td: "filter (\<lambda>t. \<not> t_done t) (today (tasks ex_state)) = []"
    by (simp add: ex_state_def ex_task_def)
  have ct: "completed_or_empty (tasks ex_state) @ completedTasks ex_now (tasks ex_state)
      = [archive_stamp ex_now (ex_task ''q'' True)]"
    by (simp add: ex_state_def ex_task_def completed_or_empty_def completedTasks_def)
  have ln: "length (completed_or_empty (tasks ex_state)) + length (completedTasks ex_now (tasks ex_state)) = 1"
    using arg_cong[OF ct, of length] by simp
  have hs: "length (habits (performDailyReset ex_now ex_state)) = 1"
    by (simp add: tick_habits_length ex_state_def)
  from hs obtain h where h: "habits (performDailyReset ex_now ex_state) = [h]"
    by (cases "habits (performDailyReset ex_now ex_state)") auto
  show ?thesis
    using day_rollover_complete[OF ex_day_due] ex_day_due
    by (simp add: ev td ct ln ex_today ex_event_def archive_stamp_fields ex_task_def h)
qed

text \<open>
  With 101 finished tasks in one list, the first of them is in no working list and not
  in the archive after the rollover: the cut to 100 entries drops it.
\<close>

theorem day_rollover_counterexample:
  "day_due ex_now ex_many_done
   \<and> ex_task ''first'' True \<in> set (today (tasks ex_many_done))
   \<and> t_done (ex_task ''first'' True)
   \<and> ''first'' \<notin> set (map t_id (today (tasks (performDailyReset ex_now ex_many_done))))
   \<and> ''first'' \<notin> set (map t_id (completed_or_empty (tasks (performDailyReset ex_now ex_many_done))))"
proof -
  have due: "day_due ex_now ex_many_done"
    by (simp add: day_due_def ex_today ex_many_done_def ex_state_def ex_storage_def
        getItem_or_empty_def)
  have ct: "completed_or_empty (tasks ex_many_done) @ completedTasks ex_now (tasks ex_many_done)
      = archive_stamp ex_now (ex_task ''first'' True)
          # replicate 100 (archive_stamp ex_now (ex_task ''next'' True))"
    by (simp add: ex_many_done_def ex_state_def ex_task_def completed_or_empty_def
        completedTasks_def)
  have arch: "completed_or_empty (tasks (performDailyReset ex_now ex_many_done))
      = replicate 100 (archive_stamp ex_now (ex_task ''next'' True))"
    by (simp add: tick_due_fields(2)[OF due] completed_or_empty_def[of "newTasks ex_now (tasks ex_many_done)"]
        newTasks_fields ct slice_last_def)
  have t0: "today (tasks ex_many_done)
      = ex_task ''first'' True # replicate 100 (ex_task ''next'' True)"
    by (simp add: ex_many_done_def ex_state_def)
  have td: "today (tasks (performDailyReset ex_now ex_many_done)) = []"
    by (simp add: tick_due_fields(2)[OF due] newTasks_fields t0 ex_task_def)
  show ?thesis
    using due by (simp add: arch td t0 archive_stamp_fields ex_task_def)
qed

lemma tick_events:
  "schedEvents (performDailyReset now s) =
     (if day_due now s then filter is_persistent (schedEvents s) else schedEvents s)"
  by (simp add: tick_cases stmt_defs)

lemma app_tick_events:
  "schedEvents (app_performDailyReset now s) =
     (if day_due now s then filter is_persistent (schedEvents s) else schedEvents s)"
  by (simp add: app_performDailyReset_def app_call_statements_def app_queued_updates_def
      stmt_defs)

lemma fold_tick_persistent:
  "filter is_persistent (schedEvents (fold performDailyReset nows s))
     = filter is_persistent (schedEvents s)"
proof (induction nows arbitrary: s)
  case Nil
  show ?case by simp
next
  case (Cons now nows)
  have "filter is_persistent (schedEvents (performDailyReset now s))
      = filter is_persistent (schedEvents s)"
    by (simp add: tick_events)
  with Cons.IH[of "performDailyReset now s"] show ?case by simp
qed

lemma fold_app_tick_persistent:
  "filter is_persistent (schedEvents (fold app_performDailyReset nows s))
     = filter is_persistent (schedEvents s)"
proof (induction nows arbitrary: s)
  case Nil
  show ?case by simp
next
  case (Cons now nows)
  have "filter is_persistent (schedEvents (app_performDailyReset now s))
      = filter is_persistent (schedEvents s)"
    by (simp add: app_tick_events)
  with Cons.IH[of "app_performDailyReset now s"] show ?case by simp
qed

text \<open>
  C3.  Through any number of successive calls of the daily-reset check, of the hook
  and of the application component alike, the events whose \<^verbatim>\<open>persistent\<close> flag is
  true stay in the event list, unchanged and in their order; and a call at which the
  day block runs leaves exactly those events, so that an event whose flag is false or
  absent is gone after it.
\<close>

theorem persistent_events_survive:
  "filter is_persistent (schedEvents (fold performDailyReset nows s))
      = filter is_persistent (schedEvents s)
   \<and> filter is_persistent (schedEvents (fold app_performDailyReset nows s))
      = filter is_persistent (schedEvents s)
   \<and> (day_due now s \<longrightarrow>
        schedEvents (performDailyReset now s) = filter is_persistent (schedEvents s)
        \<and> schedEvents (app_performDailyReset now s) = filter is_persistent (schedEvents s))
   \<and> (day_due now s \<and> persistent e \<noteq> Some True \<longrightarrow>
        e \<notin> set (schedEvents (performDailyReset now s))
        \<and> e \<notin> set (schedEvents (app_performDailyReset now s)))"
  by (simp add: fold_tick_persistent fold_app_tick_persistent tick_events app_tick_events
      is_persistent_def)

text \<open>
  Two calls on the example state: the persistent event stays, the event without a
  flag is removed by the first.
\<close>

theorem persistent_events_survive_witness:
  "day_due ex_now ex_state
   \<and> persistent (ex_event ''c'' None) \<noteq> Some True
   \<and> filter is_persistent (schedEvents (fold performDailyReset [ex_now, ex_now] ex_state))
       = [ex_event ''a'' (Some True)]
   \<and> schedEvents (performDailyReset ex_now ex_state) = [ex_event ''a'' (Some True)]
   \<and> ex_event ''c'' None \<notin> set (schedEvents (performDailyReset ex_now ex_state))
   \<and> ex_event ''c'' None \<notin> set (schedEvents (app_performDailyReset ex_now ex_state))"
proof -
  have ev: "filter is_persistent (schedEvents ex_state) = [ex_event ''a'' (Some True)]"
    by (simp add: ex_state_def ex_event_def is_persistent_def)
  have np: "persistent (ex_event ''c'' None) \<noteq> Some True"
    by (simp add: ex_event_def)
  show ?thesis
    using persistent_events_survive[of "[ex_now, ex_now]" ex_state ex_now "ex_event ''c'' None"]
      ex_day_due np
    by (simp only: ev simp_thms) (simp add: ex_event_def)
qed

text \<open>
  C4 (as amended).  When the day block runs and the entries already archived plus the
  tasks finished since number more than 100, the archive afterwards is the last 100
  entries, by position, of the old archive followed by the newly archived tasks, which
  are the finished tasks of the primary list, of today's list, of the week's list and
  of the later list, in that order: the entries at the front are the ones dropped,
  whatever their \<^verbatim>\<open>completedAt\<close>.  Each newly archived task carries
  \<^verbatim>\<open>archivedAt\<close> and \<^verbatim>\<open>completedAt\<close>.
\<close>

theorem archive_cap:
  assumes "day_due now s"
    and "100 < length (completed_or_empty (tasks s)) + length (completedTasks now (tasks s))"
  shows "completed (tasks (performDailyReset now s)) =
           Some (drop (length (completed_or_empty (tasks s) @ completedTasks now (tasks s)) - 100)
                      (completed_or_empty (tasks s) @ completedTasks now (tasks s)))
    \<and> length (completed_or_empty (tasks (performDailyReset now s))) = 100
    \<and> completedTasks now (tasks s) =
         map (archive_stamp now)
           (filter t_done (primary (tasks s)) @ filter t_done (today (tasks s)) @
            filter t_done (thisWeek (tasks s)) @ filter t_done (later (tasks s)))
    \<and> list_all (\<lambda>t. archivedAt t = Some (toISOString now) \<and> completedAt t \<noteq> None
                    \<and> (toISOString now \<noteq> [] \<longrightarrow> completedAt t \<noteq> Some []))
         (completedTasks now (tasks s))"
proof -
  let ?all = "completed_or_empty (tasks s) @ completedTasks now (tasks s)"
  have long: "100 < length ?all" using assms(2) by simp
  have c: "completed (tasks (performDailyReset now s)) = Some (slice_last 100 ?all)"
    by (simp add: tick_due_fields(2)[OF assms(1)] newTasks_fields)
  have c1: "completed (tasks (performDailyReset now s)) = Some (drop (length ?all - 100) ?all)"
    unfolding c slice_last_long[OF long] ..
  have c2: "length (completed_or_empty (tasks (performDailyReset now s))) = 100"
    using long by (simp add: completed_or_empty_def[of "tasks (performDailyReset now s)"] c1)
  have c3: "list_all (\<lambda>t. archivedAt t = Some (toISOString now) \<and> completedAt t \<noteq> None
                    \<and> (toISOString now \<noteq> [] \<longrightarrow> completedAt t \<noteq> Some []))
         (completedTasks now (tasks s))"
    by (auto simp: completedTasks_def list_all_iff archive_stamp_def or_else_def
        split: if_splits option.splits)
  show ?thesis
    using c1 c2 c3 by (simp add: completedTasks_def)
qed

text \<open>
  A full archive and one more finished task: the oldest entry leaves, the new one is
  last.
\<close>

theorem archive_cap_witness:
  "day_due ex_now ex_full_archive
   \<and> 100 < length (completed_or_empty (tasks ex_full_archive))
            + length (completedTasks ex_now (tasks ex_full_archive))
   \<and> map t_id (completed_or_empty (tasks (performDailyReset ex_now ex_full_archive)))
       = replicate 99 ''old'' @ [''q'']
   \<and> length (completed_or_empty (tasks (performDailyReset ex_now ex_full_archive))) = 100"
proof -
  have due: "day_due ex_now ex_full_archive"
    by (simp add: day_due_def ex_today ex_full_archive_def ex_state_def ex_storage_def
        getItem_or_empty_def)
  have old: "completed_or_empty (tasks ex_full_archive) = replicate 100 (ex_task ''old'' True)"
    by (simp add: ex_full_archive_def completed_or_empty_def)
  have new: "completedTasks ex_now (tasks ex_full_archive)
      = [archive_stamp ex_now (ex_task ''q'' True)]"
    by (simp add: ex_full_archive_def ex_state_def ex_task_def completedTasks_def)
  have more: "100 < length (completed_or_empty (tasks ex_full_archive))
            + length (completedTasks ex_now (tasks ex_full_archive))"
    by (simp add: old new)
  have r: "replicate 100 (ex_task ''old'' True) = ex_task ''old'' True # replicate 99 (ex_task ''old'' True)"
    by (simp add: replicate_Suc[symmetric] del: replicate_Suc)
  have "completed (tasks (performDailyReset ex_now ex_full_archive))
      = Some (replicate 99 (ex_task ''old'' True) @ [archive_stamp ex_now (ex_task ''q'' True)])"
    using archive_cap[OF due more] by (simp add: old new r)
  then have "completed_or_empty (tasks (performDailyReset ex_now ex_full_archive))
      = replicate 99 (ex_task ''old'' True) @ [archive_stamp ex_now (ex_task ''q'' True)]"
    by (simp add: completed_or_empty_def)
  then show ?thesis
    using due more by (simp add: archive_stamp_fields ex_task_def)
qed

lemma ex_later_today: "getTodayISO ex_later = ''2026-01-21''"
  by (simp add: getTodayISO_def ex_later_def String_of_int_def padStart2_def digits10.simps)

text \<open>
  The archive is not ordered by the time of completion.  Task \<open>b\<close> was finished
  at 10:00 and task \<open>a\<close> at 09:00 of the same day; the rollover archives them as
  \<open>b\<close>, \<open>a\<close>, because \<open>b\<close> stood in the primary list.  The next rollover, with
  99 newly finished tasks, drops \<open>b\<close> and keeps \<open>a\<close>.
\<close>

theorem archive_cap_counterexample:
  "map t_id (completed_or_empty (tasks (performDailyReset ex_now ex_two_done))) = [''b'', ''a'']
   \<and> map completedAt (completed_or_empty (tasks (performDailyReset ex_now ex_two_done)))
       = [Some ''2026-01-19T10:00:00.000Z'', Some ''2026-01-19T09:00:00.000Z'']
   \<and> day_due ex_later ex_next_day
   \<and> 100 < length (completed_or_empty (tasks ex_next_day))
            + length (completedTasks ex_later (tasks ex_next_day))
   \<and> map t_id (completed_or_empty (tasks (performDailyReset ex_later ex_next_day)))
       = ''a'' # replicate 99 ''c''"
proof -
  have due1: "day_due ex_now ex_two_done"
    by (simp add: day_due_def ex_today ex_two_done_def ex_state_def ex_storage_def
        getItem_or_empty_def)
  have t1: "tasks ex_two_done =
      \<lparr>primary = [ex_task_at ''b'' ''2026-01-19T10:00:00.000Z''],
       today = [ex_task_at ''a'' ''2026-01-19T09:00:00.000Z''],
       thisWeek = [], later = [], completed = Some []\<rparr>"
    by (simp add: ex_two_done_def)
  have a1: "completed_or_empty (tasks (performDailyReset ex_now ex_two_done))
      = [archive_stamp ex_now (ex_task_at ''b'' ''2026-01-19T10:00:00.000Z''),
         archive_stamp ex_now (ex_task_at ''a'' ''2026-01-19T09:00:00.000Z'')]"
    by (simp add: tick_due_fields(2)[OF due1] t1 completed_or_empty_def newTasks_def
        completedTasks_def slice_last_def ex_task_at_def ex_task_def)
  have st: "\<And>i c. t_id (archive_stamp ex_now (ex_task_at i c)) = i"
    "\<And>i c. c \<noteq> [] \<Longrightarrow> completedAt (archive_stamp ex_now (ex_task_at i c)) = Some c"
    by (simp_all add: archive_stamp_def ex_task_at_def ex_task_def or_else_def)
  have l2: "selah_lastDailyResetISO (ls ex_next_day) = Some ''2026-01-20''"
    using due1 by (simp add: ex_next_day_def tick_ledger ex_today)
  have due2: "day_due ex_later ex_next_day"
    by (simp add: day_due_def l2 ex_later_today getItem_or_empty_def)
  have old2: "completed_or_empty (tasks ex_next_day)
      = [archive_stamp ex_now (ex_task_at ''b'' ''2026-01-19T10:00:00.000Z''),
         archive_stamp ex_now (ex_task_at ''a'' ''2026-01-19T09:00:00.000Z'')]"
    using a1 by (simp add: ex_next_day_def completed_or_empty_def)
  have p2: "primary (tasks ex_next_day) = []" "thisWeek (tasks ex_next_day) = []"
    "later (tasks ex_next_day) = []"
    "today (tasks ex_next_day) = replicate 99 (ex_task_at ''c'' ''2026-01-20T12:00:00.000Z'')"
    by (simp_all add: ex_next_day_def tick_due_fields(2)[OF due1] t1 newTasks_def
        ex_task_at_def ex_task_def)
  have new2: "completedTasks ex_later (tasks ex_next_day)
      = replicate 99 (archive_stamp ex_later (ex_task_at ''c'' ''2026-01-20T12:00:00.000Z''))"
    by (simp add: completedTasks_def p2 ex_task_at_def ex_task_def)
  have more: "100 < length (completed_or_empty (tasks ex_next_day))
            + length (completedTasks ex_later (tasks ex_next_day))"
    by (simp add: old2 new2)
  have a2: "completed_or_empty (tasks (performDailyReset ex_later ex_next_day))
      = archive_stamp ex_now (ex_task_at ''a'' ''2026-01-19T09:00:00.000Z'')
        # replicate 99 (archive_stamp ex_later (ex_task_at ''c'' ''2026-01-20T12:00:00.000Z''))"
    by (simp add: tick_due_fields(2)[OF due2] completed_or_empty_def[of "newTasks ex_later (tasks ex_next_day)"]
        newTasks_fields old2 new2 slice_last_def)
  have idc: "t_id (archive_stamp ex_later (ex_task_at ''c'' ''2026-01-20T12:00:00.000Z'')) = ''c''"
    by (simp add: archive_stamp_def ex_task_at_def ex_task_def)
  show ?thesis
    using due2 more by (simp add: a1 a2 st idc)
qed

lemma call_due:
  assumes "day_due now s"
  shows "selah_lastDailyResetISO (ls (fst (performDailyReset_call now s))) = Some (getTodayISO now)"
    and "selah_schedEvents (ls (fst (performDailyReset_call now s))) = selah_schedEvents (ls s)"
    and "selah_tasks (ls (fst (performDailyReset_call now s))) = selah_tasks (ls s)"
    and "schedEvents (fst (performDailyReset_call now s)) = schedEvents s"
    and "tasks (fst (performDailyReset_call now s)) = tasks s"
  using assms
  by (simp_all add: performDailyReset_call_def Let_def week_due_after_day_call
      week_call_statements_def run_statements_list)
    (simp_all add: stmt_defs)

text \<open>
  C5 asks that the day key be written only after the task archival, the habit un-check,
  the event purge and the reflection clear have been applied, as the last write of the
  day block.  The program writes it earlier.  On the example state, when
  \<^verbatim>\<open>performDailyReset\<close> returns, the day key in the store is today's date, while the
  events and the tasks are as they were, in the component and in the store: their
  updates, which contain their writes, are still queued.  The writes of the run happen
  in the order habits, gratitude, reflections, day key, events, tasks.
\<close>

theorem ledger_written_before_updates:
  "day_due ex_now ex_week_current
   \<and> selah_lastDailyResetISO (ls (fst (performDailyReset_call ex_now ex_week_current)))
       = Some ''2026-01-20''
   \<and> selah_schedEvents (ls (fst (performDailyReset_call ex_now ex_week_current))) = None
   \<and> selah_tasks (ls (fst (performDailyReset_call ex_now ex_week_current))) = None
   \<and> map ev_id (schedEvents (fst (performDailyReset_call ex_now ex_week_current)))
       = [''a'', ''b'', ''c'']
   \<and> map t_id (today (tasks (fst (performDailyReset_call ex_now ex_week_current)))) = [''q'']
   \<and> ls_log (ls (fst (performDailyReset_call ex_now ex_week_current)))
       = [K_habits, K_gratitude, K_reflections, K_lastDailyResetISO]
   \<and> length (snd (performDailyReset_call ex_now ex_week_current)) = 4
   \<and> ls_log (ls (performDailyReset ex_now ex_week_current))
       = [K_habits, K_gratitude, K_reflections, K_lastDailyResetISO, K_schedEvents, K_tasks]"
proof -
  have l: "ls ex_week_current = ex_storage\<lparr>selah_last_habit_reset_week := Some ''4''\<rparr>"
    by (simp add: ex_week_current_def)
  have due: "day_due ex_now ex_week_current"
    by (simp add: day_due_def ex_today l ex_storage_def getItem_or_empty_def)
  have nw: "\<not> week_due ex_now ex_week_current"
    by (simp add: week_due_def ex_week l ex_storage_def getItem_or_empty_def)
  have nw': "\<not> week_due ex_now (run_statements (day_call_statements ex_now) ex_week_current)"
    using nw by (simp add: week_due_after_day_call)
  have f: "schedEvents ex_week_current
        = [ex_event ''a'' (Some True), ex_event ''b'' (Some False), ex_event ''c'' None]"
    "today (tasks ex_week_current) = [ex_task ''q'' True]"
    "selah_schedEvents (ls ex_week_current) = None" "selah_tasks (ls ex_week_current) = None"
    "ls_log (ls ex_week_current) = []"
    by (simp_all add: ex_week_current_def ex_state_def ex_storage_def)
  have lg1: "ls_log (ls (fst (performDailyReset_call ex_now ex_week_current)))
       = [K_habits, K_gratitude, K_reflections, K_lastDailyResetISO]"
    using due nw' by (simp add: performDailyReset_call_def Let_def)
      (simp add: stmt_defs f)
  have q: "length (snd (performDailyReset_call ex_now ex_week_current)) = 4"
    using due nw' by (simp add: performDailyReset_call_def Let_def)
      (simp add: day_queued_updates_def)
  have lg2: "ls_log (ls (performDailyReset ex_now ex_week_current))
       = [K_habits, K_gratitude, K_reflections, K_lastDailyResetISO, K_schedEvents, K_tasks]"
    using due nw by (simp add: tick_cases) (simp add: stmt_defs f)
  show ?thesis
    using due lg1 q lg2
    by (simp add: call_due[OF due] ex_today f ev_id_ex_event ex_task_def)
qed

section \<open>Properties of the schedule view\<close>

lemma timeFromY_char:
  assumes T: "T = max 0 (min (max 0 (y - rtop - GRID_TOP_PADDING)) (of_int nH * H - 1)) / H * 60"
    and q: "\<lfloor>T / 60\<rfloor> = q"
    and j: "Math_round (js_rem T 60 / 5) = j"
    and jr: "0 \<le> j" "j < 12"
    and qr: "0 \<le> q" "q < nH"
  shows "timeFromY H sH nH y rtop = (sH + q, 5 * j)"
proof -
  have "timeFromY H sH nH y rtop =
      (max sH (min (if j * 5 \<ge> 60 then min (sH + q + 1) (sH + nH - 1) else sH + q) (sH + nH - 1)),
       max 0 (min (if j * 5 \<ge> 60 then 0 else j * 5) 55))"
    by (simp only: timeFromY_def Let_def T[symmetric] q j)
  also have "\<dots> = (sH + q, 5 * j)"
    using jr qr by (simp add: min_def max_def)
  finally show ?thesis .
qed

lemma Math_round_fifth: "Math_round (of_int (5 * j) / 5) = j"
proof -
  have "(of_int (5 * j) :: rat) / 5 + 1 / 2 = of_int j + 1 / 2" by simp
  then show ?thesis unfolding Math_round_def by (simp add: floor_unique)
qed

lemma js_rem_minutes:
  assumes "0 \<le> m" "m < 60" "0 \<le> k"
  shows "\<lfloor>(of_int (60 * k + m) :: rat) / 60\<rfloor> = k"
    and "js_rem (of_int (60 * k + m)) 60 = of_int m"
proof -
  have fl: "\<lfloor>(of_int (60 * k + m) :: rat) / 60\<rfloor> = k"
    using assms by (intro floor_unique) (simp_all add: field_simps)
  show "\<lfloor>(of_int (60 * k + m) :: rat) / 60\<rfloor> = k" by (rule fl)
  have nn: "(0::rat) \<le> of_int (60 * k + m) / 60" using assms by simp
  show "js_rem (of_int (60 * k + m)) 60 = of_int m"
    unfolding js_rem_def js_trunc_def using nn fl by simp
qed

lemma timeFromY_blockTop:
  assumes H: "8 \<le> H"
    and h: "sH \<le> h" "h < sH + nH"
    and m: "0 \<le> m" "m < 60" "5 dvd m"
  shows "timeFromY H sH nH (rtop + blockTop H sH h m) rtop = (h, m)"
proof -
  define k where "k = h - sH"
  define a :: rat where "a = of_int k + of_int m / 60"
  from m(3) obtain j where j: "m = 5 * j" by (auto simp: dvd_def)
  have jr: "0 \<le> j" "j < 12" using m j by auto
  have k0: "0 \<le> k" "k < nH" using h by (auto simp: k_def)
  have Hpos: "0 < H" using H by simp
  have a0: "0 \<le> a" using k0 m by (simp add: a_def)
  have adj: "max 0 (rtop + blockTop H sH h m - rtop - GRID_TOP_PADDING) = a * H"
    using a0 Hpos by (simp add: blockTop_def Let_def a_def k_def max_def)
  have hq: "h = sH + k" by (simp add: k_def)
  show ?thesis
  proof (cases "a * H \<le> of_int nH * H - 1")
    case True
    have c: "max 0 (min (a * H) (of_int nH * H - 1)) = a * H"
      using True a0 Hpos by (simp add: min_def max_def)
    have T: "of_int (60 * k + m) =
        max 0 (min (max 0 (rtop + blockTop H sH h m - rtop - GRID_TOP_PADDING)) (of_int nH * H - 1)) / H * 60"
      unfolding adj c using Hpos by (simp add: a_def field_simps)
    have "timeFromY H sH nH (rtop + blockTop H sH h m) rtop = (sH + k, 5 * j)"
    proof (rule timeFromY_char[OF T _ _ jr k0])
      show "\<lfloor>(of_int (60 * k + m) :: rat) / 60\<rfloor> = k"
        using js_rem_minutes(1)[OF m(1,2) k0(1)] .
      show "Math_round (js_rem (of_int (60 * k + m)) 60 / 5) = j"
        by (simp only: js_rem_minutes(2)[OF m(1,2) k0(1)]) (simp only: j Math_round_fifth)
    qed
    then show ?thesis by (simp add: hq j)
  next
    case False
    then have cl: "of_int nH * H - 1 < a * H" by simp
    define d where "d = nH - k"
    have d1: "1 \<le> d" using k0 by (simp add: d_def)
    have gap: "of_int nH - a = (of_int (60 * d - m) :: rat) / 60"
      by (simp add: a_def d_def field_simps)
    have gp: "(0::rat) < of_int (60 * d - m) / 60"
      using d1 m by simp
    have "(of_int nH - a) * H < 1" using cl by (simp add: algebra_simps)
    moreover have "(of_int nH - a) * 8 \<le> (of_int nH - a) * H"
      using H gp unfolding gap by (intro mult_left_mono) simp_all
    ultimately have "(of_int nH - a) * 8 < 1" by linarith
    then have "(of_int (60 * d - m) :: rat) * 8 < 60" unfolding gap by simp
    then have "(of_int ((60 * d - m) * 8) :: rat) < of_int 60" by simp
    then have "(60 * d - m) * 8 < 60" by (simp only: of_int_less_iff)
    moreover have "\<And>x::int. x * 8 < 60 \<Longrightarrow> x \<le> 7" by presburger
    ultimately have le7: "60 * d - m \<le> 7" by blast
    with d1 m have d_1: "d = 1" by linarith
    with le7 j have "53 \<le> 5 * j" by linarith
    moreover from m(2) j have "5 * j < 60" by simp
    ultimately have "j = 11" by presburger
    with j d_1 have dm: "d = 1" "m = 55" by simp_all
    have kq: "k = nH - 1" using dm by (simp add: d_def)
    have a55: "a = of_int nH - 1 / 12" by (simp add: a_def kq dm)
    have H12: "H < 12" using cl Hpos by (simp add: a55 field_simps)
    have nH1: "1 \<le> nH" using k0 by simp
    have usable: "(0::rat) \<le> of_int nH * H - 1"
    proof -
      have "(1::rat) * 8 \<le> of_int nH * H" using nH1 H by (intro mult_mono) simp_all
      then show ?thesis by simp
    qed
    have c: "max 0 (min (a * H) (of_int nH * H - 1)) = of_int nH * H - 1"
      using cl usable by (simp add: min_def max_def)
    define T :: rat where "T = 60 * of_int nH - 60 / H"
    have T: "T =
        max 0 (min (max 0 (rtop + blockTop H sH h m - rtop - GRID_TOP_PADDING)) (of_int nH * H - 1)) / H * 60"
      unfolding adj c T_def using Hpos by (simp add: field_simps)
    have invH: "0 < 1 / H" "1 / H \<le> 1 / 8" "1 / 12 < 1 / H"
      using H H12 Hpos by (simp_all add: field_simps)
    have T60: "T / 60 = of_int nH - 1 / H" by (simp add: T_def field_simps)
    have fl: "\<lfloor>T / 60\<rfloor> = k"
      unfolding T60 kq using invH by (intro floor_unique) simp_all
    have nn: "0 \<le> T / 60" unfolding T60 using invH nH1
    proof -
      have "(1::rat) \<le> of_int nH" using nH1 by simp
      with invH show "0 \<le> of_int nH - 1 / H" by linarith
    qed
    have rem: "js_rem T 60 = 60 - 60 / H"
      unfolding js_rem_def js_trunc_def using nn fl by (simp add: T_def kq)
    have rnd: "Math_round (js_rem T 60 / 5) = 11"
      unfolding rem Math_round_def using invH by (intro floor_unique) (simp_all add: field_simps)
    have "timeFromY H sH nH (rtop + blockTop H sH h m) rtop = (sH + k, 5 * 11)"
      by (rule timeFromY_char[OF T fl rnd _ _ k0]) simp_all
    then show ?thesis by (simp add: hq dm)
  qed
qed

text \<open>
  C6.  For an hour height of at least 8 pixels (the program's \<^verbatim>\<open>HOUR_HEIGHT\<close> is
  64), every hour within the visible window and every minute that is a multiple of 5:
  the offset at which \<^verbatim>\<open>getBlockStyle\<close> places that time, handed back to
  \<^verbatim>\<open>getTimeFromY\<close> as a pointer position, gives exactly that hour and minute.
  Offsets are exact rationals.  Below 8 pixels per hour the clamp to one pixel above
  the bottom edge moves the last slot of the window by more than the snap absorbs.
\<close>

theorem geometry_round_trip:
  assumes H: "8 \<le> H"
    and h: "sH \<le> h" "h < sH + nH"
    and m: "0 \<le> m" "m < 60" "5 dvd m"
  shows "timeFromY H sH nH (rtop + blockTop H sH h m) rtop = (h, m)
    \<and> (sH = startH s \<and> nH = len s \<and> h = hour ev \<and> m = minute ev \<longrightarrow>
          getTimeFromY s (rect_top r + fst (getBlockStyle s ev)) r = (hour ev, minute ev))"
proof -
  have a: "timeFromY H sH nH (rtop + blockTop H sH h m) rtop = (h, m)"
    using assms by (rule timeFromY_blockTop)
  have "timeFromY HOUR_HEIGHT sH nH (rect_top r + blockTop HOUR_HEIGHT sH h m) (rect_top r) = (h, m)"
    using _ h m by (rule timeFromY_blockTop) (simp add: HOUR_HEIGHT_def)
  then have b: "sH = startH s \<and> nH = len s \<and> h = hour ev \<and> m = minute ev \<longrightarrow>
          getTimeFromY s (rect_top r + fst (getBlockStyle s ev)) r = (hour ev, minute ev)"
    by (auto simp: getTimeFromY_def getBlockStyle_def Let_def)
  from a b show ?thesis by (rule conjI)
qed

text \<open>
  The program's own functions on the example view: 14:15 in a window from 9 to 17.
\<close>

theorem geometry_round_trip_witness:
  "(8::rat) \<le> HOUR_HEIGHT \<and> startH ex_view \<le> 14 \<and> 14 < startH ex_view + len ex_view
   \<and> (0::int) \<le> 15 \<and> (15::int) < 60 \<and> (5::int) dvd 15
   \<and> getTimeFromY ex_view
        (100 + fst (getBlockStyle ex_view ((ex_event ''a'' None)\<lparr>hour := 14, minute := 15\<rparr>)))
        \<lparr>rect_top = 100, rect_left = 0\<rparr> = (14, 15)"
proof -
  have v: "startH ex_view = 9" "len ex_view = 8" by (simp_all add: ex_view_def)
  have e: "hour ((ex_event ''a'' None)\<lparr>hour := 14, minute := 15\<rparr>) = 14"
    "minute ((ex_event ''a'' None)\<lparr>hour := 14, minute := 15\<rparr>) = 15"
    by simp_all
  have hh: "(8::rat) \<le> HOUR_HEIGHT" by (simp add: HOUR_HEIGHT_def)
  from geometry_round_trip[OF hh, of 9 14 8 15 0 ex_view
      "(ex_event ''a'' None)\<lparr>hour := 14, minute := 15\<rparr>" "\<lparr>rect_top = 100, rect_left = 0\<rparr>"]
  have "getTimeFromY ex_view
        (100 + fst (getBlockStyle ex_view ((ex_event ''a'' None)\<lparr>hour := 14, minute := 15\<rparr>)))
        \<lparr>rect_top = 100, rect_left = 0\<rparr> = (14, 15)"
    by (simp add: v)
  with hh show ?thesis by (simp add: v)
qed

lemma drag_step_events: "ov_schedEvents (drag_step a s) = ov_schedEvents s"
proof (cases a)
  case (BlockDragStart ev)
  then show ?thesis by (simp add: handleBlockDragStart_def)
next
  case (ScheduleDragOver e)
  then show ?thesis by (simp add: handleScheduleDragOver_def Let_def split: option.splits)
next
  case (ScheduleDragLeave inside)
  then show ?thesis by (simp add: handleScheduleDragLeave_def)
next
  case BlockDragEnd
  then show ?thesis by (simp add: handleBlockDragEnd_def)
qed

lemma fold_drag_step_events: "ov_schedEvents (fold drag_step acts s) = ov_schedEvents s"
  by (induction acts arbitrary: s) (simp_all add: drag_step_events)

lemma ex_drop_time: "getTimeFromY ex_view 612 \<lparr>rect_top = 100, rect_left = 0\<rparr> = (16, 55)"
  by code_simp

lemma ex_habit_drop:
  "ov_schedEvents (handleScheduleDrop ''n1'' (ex_drag 612 ex_habit_payload) ex_view) =
     ov_schedEvents ex_view @
       [\<lparr>ev_id = ''n1'', title = ''Morning prayer'', hour = 16, minute = 55, duration = 15,
         ev_type = ''habit'',
         itemRef = Some \<lparr>ref_type = ''habit'', ref_id = ''1'', ref_list = None\<rparr>,
         persistent = None\<rparr>]"
proof -
  have g: "gridRef ex_view = Some \<lparr>rect_top = 100, rect_left = 0\<rparr>"
    and hb: "ov_habits ex_view = [\<lparr>h_id = ''1'', h_name = ''Morning prayer'', h_done = False,
                            h_history = None\<rparr>]"
    by (simp_all add: ex_view_def)
  show ?thesis
    by (simp add: handleScheduleDrop_def Let_def g hb ex_drag_def ex_habit_payload_def ex_drop_time)
qed

text \<open>
  C7.  Whatever gestures a drag in progress produces, in any number and order (the
  start of a block drag, pointer moves over the grid, leaving the grid, the end of the
  drag), the event list afterwards is the event list before.  The drop handler is the
  one that changes it: a habit dropped on the example view adds an event.
\<close>

theorem drag_preview_frame:
  "ov_schedEvents (fold drag_step acts s) = ov_schedEvents s
   \<and> ov_schedEvents (handleScheduleDrop ''n1'' (ex_drag 612 ex_habit_payload) ex_view)
       \<noteq> ov_schedEvents ex_view"
  by (simp add: fold_drag_step_events ex_habit_drop)

text \<open>
  A block of the example view is picked up, moved over the grid and let go outside.
\<close>

theorem drag_preview_frame_witness:
  "map ev_id (ov_schedEvents (fold drag_step
      [BlockDragStart (ex_event ''a'' (Some True)),
       ScheduleDragOver (ex_drag 612 (blockDragPayload (ex_event ''a'' (Some True)))),
       ScheduleDragLeave False, BlockDragEnd] ex_view)) = [''a'', ''b'']"
proof -
  have "map ev_id (ov_schedEvents ex_view) = [''a'', ''b'']"
    by (simp add: ex_view_def ex_event_def)
  with drag_preview_frame[of "[BlockDragStart (ex_event ''a'' (Some True)),
       ScheduleDragOver (ex_drag 612 (blockDragPayload (ex_event ''a'' (Some True)))),
       ScheduleDragLeave False, BlockDragEnd]" ex_view]
  show ?thesis by (simp only:)
qed

lemma find_allTasks_None:
  assumes "list_all (\<lambda>t. Some (t_id t) = tid \<longrightarrow> t_done t)
             (primary ts @ today ts @ thisWeek ts @ later ts)"
  shows "find (\<lambda>t. Some (t_id (tt_task t)) = tid) (allTasks ts) = None"
  using assms by (auto simp: find_None_iff allTasks_def list_all_iff)

lemma find_habit_None:
  assumes "list_all (\<lambda>h. Some (h_id h) \<noteq> hid) hs"
  shows "find (\<lambda>h. Some (h_id h) = hid) hs = None"
  using assms by (auto simp: find_None_iff list_all_iff)

text \<open>
  C10.  A drop leaves the event list as it was when the payload does not parse, or
  parses to \<^verbatim>\<open>null\<close>, or names a task that every working list holds only as a
  finished task or not at all, or names a habit that is not in the habit list.
\<close>

theorem unresolved_drop_ignored:
  assumes "dt_json e = ParseError \<or> dt_json e = ParsedNull
     \<or> (\<exists>d. dt_json e = ParsedValue d \<and> p_type d = Some ''task''
            \<and> list_all (\<lambda>t. Some (t_id t) = p_taskId d \<longrightarrow> t_done t)
                 (primary (ov_tasks s) @ today (ov_tasks s) @ thisWeek (ov_tasks s)
                  @ later (ov_tasks s)))
     \<or> (\<exists>d. dt_json e = ParsedValue d \<and> p_type d = Some ''habit''
            \<and> list_all (\<lambda>h. Some (h_id h) \<noteq> p_habitId d) (ov_habits s))"
  shows "ov_schedEvents (handleScheduleDrop newId e s) = ov_schedEvents s"
  using assms
proof (elim disjE exE conjE)
  assume "dt_json e = ParseError"
  then show ?thesis by (simp add: handleScheduleDrop_def Let_def split: option.splits)
next
  assume "dt_json e = ParsedNull"
  then show ?thesis by (simp add: handleScheduleDrop_def Let_def split: option.splits)
next
  fix d
  assume "dt_json e = ParsedValue d" "p_type d = Some ''task''"
    and "list_all (\<lambda>t. Some (t_id t) = p_taskId d \<longrightarrow> t_done t)
                 (primary (ov_tasks s) @ today (ov_tasks s) @ thisWeek (ov_tasks s)
                  @ later (ov_tasks s))"
  then show ?thesis
    by (simp add: handleScheduleDrop_def Let_def find_allTasks_None split: option.splits)
next
  fix d
  assume "dt_json e = ParsedValue d" "p_type d = Some ''habit''"
    and "list_all (\<lambda>h. Some (h_id h) \<noteq> p_habitId d) (ov_habits s)"
  then show ?thesis
    by (simp add: handleScheduleDrop_def Let_def find_habit_None split: option.splits)
qed

text \<open>
  On the example view: the finished task \<^verbatim>\<open>q\<close>, an unknown habit, and a payload
  that is not JSON.
\<close>

theorem unresolved_drop_ignored_witness:
  "ov_schedEvents (handleScheduleDrop ''n1''
      (ex_drag 612 \<lparr>p_type = Some ''task'', p_taskId = Some ''q'', p_habitId = None,
                     p_blockId = None, p_title = None, p_duration = Some 15\<rparr>) ex_view)
     = ov_schedEvents ex_view
   \<and> ov_schedEvents (handleScheduleDrop ''n1''
      (ex_drag 612 \<lparr>p_type = Some ''habit'', p_taskId = None, p_habitId = Some ''9'',
                     p_blockId = None, p_title = None, p_duration = None\<rparr>) ex_view)
     = ov_schedEvents ex_view
   \<and> ov_schedEvents (handleScheduleDrop ''n1''
      \<lparr>clientX = 50, clientY = 612, dt_types = [''text/plain''], dt_json = ParseError\<rparr> ex_view)
     = ov_schedEvents ex_view"
proof -
  have t: "primary (ov_tasks ex_view) @ today (ov_tasks ex_view) @ thisWeek (ov_tasks ex_view)
        @ later (ov_tasks ex_view) = [ex_task ''p'' False, ex_task ''q'' True]"
    and hb: "ov_habits ex_view = [\<lparr>h_id = ''1'', h_name = ''Morning prayer'', h_done = False,
                            h_history = None\<rparr>]"
    by (simp_all add: ex_view_def)
  have a: "ov_schedEvents (handleScheduleDrop ''n1''
      (ex_drag 612 \<lparr>p_type = Some ''task'', p_taskId = Some ''q'', p_habitId = None,
                     p_blockId = None, p_title = None, p_duration = Some 15\<rparr>) ex_view)
     = ov_schedEvents ex_view"
    by (rule unresolved_drop_ignored) (simp add: ex_drag_def t ex_task_def)
  have b: "ov_schedEvents (handleScheduleDrop ''n1''
      (ex_drag 612 \<lparr>p_type = Some ''habit'', p_taskId = None, p_habitId = Some ''9'',
                     p_blockId = None, p_title = None, p_duration = None\<rparr>) ex_view)
     = ov_schedEvents ex_view"
    by (rule unresolved_drop_ignored) (simp add: ex_drag_def hb)
  have c: "ov_schedEvents (handleScheduleDrop ''n1''
      \<lparr>clientX = 50, clientY = 612, dt_types = [''text/plain''], dt_json = ParseError\<rparr> ex_view)
     = ov_schedEvents ex_view"
    by (rule unresolved_drop_ignored) simp
  from a b c show ?thesis by (intro conjI)
qed

lemma finalDuration_custom:
  "customDur s \<noteq> [] \<Longrightarrow> finalDuration s = min 600 (max 1 (parseInt_or (customDur s) 30))"
  by (simp add: finalDuration_def)

text \<open>
  C9 (as amended).  When the editor is saved with a custom duration entered and a
  usable title, the committed duration is \<^verbatim>\<open>parseInt\<close> of the entered text (30 when
  that is \<^verbatim>\<open>NaN\<close> or 0) clamped to the range from 1 to 600; it is not rounded.  In
  add mode the new event, appended last, carries it; in edit mode the events with the
  edited identifier carry it and the other durations stay.
\<close>

theorem custom_duration_committed:
  assumes c: "customDur s \<noteq> []" and p: "popover s = Some p" and t: "fst (save_title_ref s) \<noteq> []"
  shows "finalDuration s = min 600 (max 1 (parseInt_or (customDur s) 30))
    \<and> 1 \<le> finalDuration s \<and> finalDuration s \<le> 600
    \<and> (mode p = ''add'' \<longrightarrow>
         (\<exists>s'. saveEvent newId s = Some s'
            \<and> butlast (ov_schedEvents s') = ov_schedEvents s
            \<and> ov_schedEvents s' \<noteq> []
            \<and> ev_id (last (ov_schedEvents s')) = newId
            \<and> duration (last (ov_schedEvents s')) = finalDuration s))
    \<and> (mode p \<noteq> ''add'' \<and> pop_event p = Some pe \<longrightarrow>
         (\<exists>s'. saveEvent newId s = Some s'
            \<and> map ev_id (ov_schedEvents s') = map ev_id (ov_schedEvents s)
            \<and> map duration (ov_schedEvents s') =
                map (\<lambda>ev. if ev_id ev = ev_id pe then finalDuration s else duration ev)
                    (ov_schedEvents s)))"
proof -
  have f: "finalDuration s = min 600 (max 1 (parseInt_or (customDur s) 30))"
    using c by (rule finalDuration_custom)
  have r: "1 \<le> finalDuration s" "finalDuration s \<le> 600"
    unfolding f by simp_all
  have a: "mode p = ''add'' \<longrightarrow>
         (\<exists>s'. saveEvent newId s = Some s'
            \<and> butlast (ov_schedEvents s') = ov_schedEvents s
            \<and> ov_schedEvents s' \<noteq> []
            \<and> ev_id (last (ov_schedEvents s')) = newId
            \<and> duration (last (ov_schedEvents s')) = finalDuration s)"
    using p t by (simp add: saveEvent_def Let_def)
  have b: "mode p \<noteq> ''add'' \<and> pop_event p = Some pe \<longrightarrow>
         (\<exists>s'. saveEvent newId s = Some s'
            \<and> map ev_id (ov_schedEvents s') = map ev_id (ov_schedEvents s)
            \<and> map duration (ov_schedEvents s') =
                map (\<lambda>ev. if ev_id ev = ev_id pe then finalDuration s else duration ev)
                    (ov_schedEvents s))"
    using p t by (auto simp: saveEvent_def Let_def)
  from f r a b show ?thesis by (intro conjI)
qed

lemma ex_parse7: "parseInt_or ''7'' 30 = 7" "parseInt_or ''3'' 30 = 3"
  by code_simp+

lemma ex_save_title: "save_title_ref (ex_view\<lparr>customDur := c\<rparr>) = (''Lunch'', None)"
  by (simp add: save_title_ref_def ex_view_def trim_def is_ws_def Let_def)

text \<open>
  The example view has the custom duration 7.
\<close>

theorem custom_duration_committed_witness:
  "customDur ex_view \<noteq> []
   \<and> popover ex_view = Some \<lparr>mode = ''add'', pop_event = None, pop_x = 0, pop_y = 0\<rparr>
   \<and> fst (save_title_ref ex_view) \<noteq> []
   \<and> finalDuration ex_view = 7"
proof -
  have c: "customDur ex_view = ''7''"
    and p: "popover ex_view = Some \<lparr>mode = ''add'', pop_event = None, pop_x = 0, pop_y = 0\<rparr>"
    by (simp_all add: ex_view_def)
  have t: "fst (save_title_ref ex_view) \<noteq> []"
    using ex_save_title[of "customDur ex_view"] by simp
  have c': "customDur ex_view \<noteq> []" by (simp add: c)
  from custom_duration_committed[OF c' p t, of "''n1''" "ex_event ''a'' None"]
  have "finalDuration ex_view = min 600 (max 1 (parseInt_or (customDur ex_view) 30))" by blast
  then have "finalDuration ex_view = 7" by (simp add: c ex_parse7)
  with c' p t show ?thesis by (intro conjI)
qed

text \<open>
  Entering 7 commits a duration of 7 minutes, which is not a multiple of 5; entering 3
  commits 3 minutes, which is below 5.
\<close>

theorem custom_duration_counterexample:
  "saveEvent ''n1'' ex_view =
     Some (ex_view\<lparr>ov_schedEvents := ov_schedEvents ex_view @
             [\<lparr>ev_id = ''n1'', title = ''Lunch'', hour = 12, minute = 0, duration = 7,
               ev_type = ''event'', itemRef = None, persistent = Some False\<rparr>],
           popover := None\<rparr>)
   \<and> \<not> (5::int) dvd 7
   \<and> saveEvent ''n1'' (ex_view\<lparr>customDur := ''3''\<rparr>) =
     Some (ex_view\<lparr>customDur := ''3'', ov_schedEvents := ov_schedEvents ex_view @
             [\<lparr>ev_id = ''n1'', title = ''Lunch'', hour = 12, minute = 0, duration = 3,
               ev_type = ''event'', itemRef = None, persistent = Some False\<rparr>],
           popover := None\<rparr>)
   \<and> (3::int) < 5"
proof -
  have fd: "finalDuration ex_view = 7" "finalDuration (ex_view\<lparr>customDur := ''3''\<rparr>) = 3"
    by (simp_all add: finalDuration_def ex_view_def ex_parse7)
  have st: "save_title_ref ex_view = (''Lunch'', None)"
    using ex_save_title[of "customDur ex_view"] by simp
  have flds: "popover ex_view = Some \<lparr>mode = ''add'', pop_event = None, pop_x = 0, pop_y = 0\<rparr>"
    "popHour ex_view = 12" "popMinute ex_view = 0" "popType ex_view = ''event''"
    "popPersistent ex_view = False"
    by (simp_all add: ex_view_def)
  have a: "saveEvent ''n1'' ex_view =
     Some (ex_view\<lparr>ov_schedEvents := ov_schedEvents ex_view @
             [\<lparr>ev_id = ''n1'', title = ''Lunch'', hour = 12, minute = 0, duration = 7,
               ev_type = ''event'', itemRef = None, persistent = Some False\<rparr>],
           popover := None\<rparr>)"
    by (simp add: saveEvent_def Let_def st fd flds)
  have b: "saveEvent ''n1'' (ex_view\<lparr>customDur := ''3''\<rparr>) =
     Some (ex_view\<lparr>customDur := ''3'', ov_schedEvents := ov_schedEvents ex_view @
             [\<lparr>ev_id = ''n1'', title = ''Lunch'', hour = 12, minute = 0, duration = 3,
               ev_type = ''event'', itemRef = None, persistent = Some False\<rparr>],
           popover := None\<rparr>)"
    by (simp add: saveEvent_def Let_def ex_save_title fd flds)
  from a b show ?thesis by simp
qed

lemma snapped_minute_range:
  fixes R :: int
  shows "0 \<le> max 0 (min (if R * 5 \<ge> 60 then 0 else R * 5) 55)"
    and "max 0 (min (if R * 5 \<ge> 60 then 0 else R * 5) 55) \<le> 55"
    and "5 dvd max 0 (min (if R * 5 \<ge> 60 then 0 else R * 5) 55)"
proof -
  show "0 \<le> max 0 (min (if R * 5 \<ge> 60 then 0 else R * 5) 55)" by simp
  show "max 0 (min (if R * 5 \<ge> 60 then 0 else R * 5) 55) \<le> 55" by simp
  have "R * 5 \<le> 55 \<or> 60 \<le> R * 5" by presburger
  then show "5 dvd max 0 (min (if R * 5 \<ge> 60 then 0 else R * 5) 55)"
    by (auto simp: min_def max_def)
qed

lemma clamp_hour_range:
  fixes a n x :: int
  assumes "1 \<le> n"
  shows "a \<le> max a (min x (a + n - 1))" and "max a (min x (a + n - 1)) \<le> a + n - 1"
  using assms by simp_all

lemma timeFromY_range:
  assumes "1 \<le> nH"
  shows "sH \<le> fst (timeFromY H sH nH y rtop)"
    and "fst (timeFromY H sH nH y rtop) \<le> sH + nH - 1"
    and "0 \<le> snd (timeFromY H sH nH y rtop)"
    and "snd (timeFromY H sH nH y rtop) \<le> 55"
    and "5 dvd snd (timeFromY H sH nH y rtop)"
proof -
  show "sH \<le> fst (timeFromY H sH nH y rtop)"
    unfolding timeFromY_def Let_def fst_conv by (rule clamp_hour_range[OF assms])
  show "fst (timeFromY H sH nH y rtop) \<le> sH + nH - 1"
    unfolding timeFromY_def Let_def fst_conv by (rule clamp_hour_range[OF assms])
  show "0 \<le> snd (timeFromY H sH nH y rtop)"
    unfolding timeFromY_def Let_def snd_conv by (rule snapped_minute_range)
  show "snd (timeFromY H sH nH y rtop) \<le> 55"
    unfolding timeFromY_def Let_def snd_conv by (rule snapped_minute_range)
  show "5 dvd snd (timeFromY H sH nH y rtop)"
    unfolding timeFromY_def Let_def snd_conv by (rule snapped_minute_range)
qed

lemma snapToIncrement_fixed:
  assumes "0 \<le> c" "c < 60" "5 dvd c"
  shows "snapToIncrement c = c"
proof -
  from assms(3) obtain j where j: "c = 5 * j" by (auto simp: dvd_def)
  have "Math_round (of_int c / 5) = j" unfolding j by (rule Math_round_fifth)
  then show ?thesis using assms(2) j by (simp add: snapToIncrement_def Let_def)
qed

lemma moveBlock_fits:
  assumes hm: "startH s \<le> fst hm" "fst hm \<le> startH s + len s - 1"
      "0 \<le> snd hm" "snd hm \<le> 55" "5 dvd snd hm"
    and d: "p_duration d = Some dur" "0 < dur" "5 dvd dur" "dur \<le> len s * 60"
  shows "fst (moveBlock s hm d) * 60 + snd (moveBlock s hm d)
           = startH s * 60 + min ((fst hm - startH s) * 60 + snd hm) (len s * 60 - dur)"
proof -
  define nt where "nt = (fst hm - startH s) * 60 + snd hm"
  define c where "c = max 0 (min nt (len s * 60 - dur))"
  have nt0: "0 \<le> nt" using hm by (simp add: nt_def)
  have c_eq: "c = min nt (len s * 60 - dur)" using nt0 d by (simp add: c_def)
  have c0: "0 \<le> c" by (simp add: c_def)
  have "5 dvd nt" using hm(5) by (simp add: nt_def)
  moreover have "5 dvd len s * 60 - dur" using d(3) by (simp add: dvd_diff)
  ultimately have c5: "5 dvd c" unfolding c_eq by (simp add: min_def)
  have m5: "5 dvd c mod 60" using c5 by (simp add: dvd_mod)
  have mr: "0 \<le> c mod 60" "c mod 60 < 60" by simp_all
  have sn: "snapToIncrement (c mod 60) = c mod 60"
    using mr m5 by (rule snapToIncrement_fixed)
  have mb: "moveBlock s hm d = (startH s + c div 60, snapToIncrement (c mod 60))"
    using d(1,2) by (simp add: moveBlock_def Let_def c_def nt_def)
  have "fst (moveBlock s hm d) * 60 + snd (moveBlock s hm d)
      = startH s * 60 + (c div 60 * 60 + c mod 60)"
    by (simp add: mb sn algebra_simps)
  also have "\<dots> = startH s * 60 + c" by simp
  finally show ?thesis by (simp add: c_eq nt_def)
qed

lemma snapToIncrement_nonneg:
  assumes "0 \<le> c"
  shows "0 \<le> snapToIncrement c"
proof -
  have "(0::rat) \<le> of_int c / 5 + 1 / 2" using assms by simp
  then have "0 \<le> Math_round (of_int c / 5)" unfolding Math_round_def by simp
  then show ?thesis by (simp add: snapToIncrement_def Let_def)
qed

lemma snapToIncrement_zero: "snapToIncrement 0 = 0"
  by (rule snapToIncrement_fixed) simp_all

lemma moveBlock_lower:
  "startH s * 60 \<le> fst (moveBlock s hm d) * 60 + snd (moveBlock s hm d)"
proof -
  define dur where "dur = (case p_duration d of None \<Rightarrow> 30 | Some n \<Rightarrow> if n = 0 then 30 else n)"
  define c where "c = max 0 (min ((fst hm - startH s) * 60 + snd hm) (len s * 60 - dur))"
  have c0: "0 \<le> c" by (simp add: c_def)
  have mb: "moveBlock s hm d = (startH s + c div 60, snapToIncrement (c mod 60))"
    by (simp add: moveBlock_def Let_def c_def dur_def)
  have "0 \<le> c div 60" using c0 by (simp add: pos_imp_zdiv_nonneg_iff)
  moreover have "0 \<le> snapToIncrement (c mod 60)" by (rule snapToIncrement_nonneg) simp
  ultimately show ?thesis by (simp add: mb)
qed

lemma moveBlock_too_long:
  assumes "p_duration d = Some dur" and "len s * 60 < dur"
    and "0 \<le> len s"
  shows "moveBlock s hm d = (startH s, 0)"
proof -
  have "dur \<noteq> 0" using assms by auto
  moreover have "max 0 (min ((fst hm - startH s) * 60 + snd hm) (len s * 60 - dur)) = 0"
    using assms(2) by simp
  ultimately show ?thesis
    using assms(1) by (simp add: moveBlock_def Let_def snapToIncrement_zero)
qed

lemma map_moved:
  assumes "\<And>ev. f (g ev) = f ev"
  shows "map f (map (\<lambda>ev. if P ev then g ev else ev) xs) = map f xs"
  using assms by (induction xs) simp_all

lemma drop_block_events:
  assumes g: "gridRef s = Some r" and p: "dt_json e = ParsedValue (blockDragPayload ev0)"
    and i: "ev_id ev0 \<noteq> []"
  shows "ov_schedEvents (handleScheduleDrop newId e s) =
           map (\<lambda>ev. if ev_id ev = ev_id ev0
                      then ev\<lparr>hour := fst (moveBlock s (getTimeFromY s (clientY e) r)
                                                (blockDragPayload ev0)),
                              minute := snd (moveBlock s (getTimeFromY s (clientY e) r)
                                                (blockDragPayload ev0))\<rparr>
                      else ev)
               (ov_schedEvents s)"
  using i by (simp add: handleScheduleDrop_def Let_def g p blockDragPayload_def)

text \<open>
  C8 (as amended).  A drop that carries the payload of a block drag replaces, in every
  stored event with the dragged identifier, the hour and the minute, and leaves the
  identifiers, titles, durations, types, item references and persistence flags of all
  events as they were.  The new start is computed from the pointer time by clamping its
  offset from the start hour to the range from 0 to the length of the visible schedule
  minus the duration.  So the new start is never before the start hour; an event longer
  than the visible schedule is put at the start hour; and when the duration is
  positive, a multiple of 5 and not longer than the visible schedule, the new start is
  the start hour plus the smaller of the pointer offset and that bound, so that the
  event starts and ends within the visible schedule.
\<close>

theorem drop_moves_block:
  assumes g: "gridRef s = Some r" and p: "dt_json e = ParsedValue (blockDragPayload ev0)"
    and i: "ev_id ev0 \<noteq> []"
  shows "ov_schedEvents (handleScheduleDrop newId e s) =
           map (\<lambda>ev. if ev_id ev = ev_id ev0
                      then ev\<lparr>hour := fst (moveBlock s (getTimeFromY s (clientY e) r)
                                                (blockDragPayload ev0)),
                              minute := snd (moveBlock s (getTimeFromY s (clientY e) r)
                                                (blockDragPayload ev0))\<rparr>
                      else ev)
               (ov_schedEvents s)
    \<and> map ev_id (ov_schedEvents (handleScheduleDrop newId e s)) = map ev_id (ov_schedEvents s)
    \<and> map title (ov_schedEvents (handleScheduleDrop newId e s)) = map title (ov_schedEvents s)
    \<and> map duration (ov_schedEvents (handleScheduleDrop newId e s)) = map duration (ov_schedEvents s)
    \<and> map ev_type (ov_schedEvents (handleScheduleDrop newId e s)) = map ev_type (ov_schedEvents s)
    \<and> map itemRef (ov_schedEvents (handleScheduleDrop newId e s)) = map itemRef (ov_schedEvents s)
    \<and> map persistent (ov_schedEvents (handleScheduleDrop newId e s))
         = map persistent (ov_schedEvents s)
    \<and> (1 \<le> len s \<and> 0 < duration ev0 \<and> 5 dvd duration ev0 \<and> duration ev0 \<le> len s * 60 \<longrightarrow>
          fst (moveBlock s (getTimeFromY s (clientY e) r) (blockDragPayload ev0)) * 60
            + snd (moveBlock s (getTimeFromY s (clientY e) r) (blockDragPayload ev0))
          = startH s * 60
            + min ((fst (getTimeFromY s (clientY e) r) - startH s) * 60
                     + snd (getTimeFromY s (clientY e) r))
                  (len s * 60 - duration ev0)
        \<and> startH s * 60
            \<le> fst (moveBlock s (getTimeFromY s (clientY e) r) (blockDragPayload ev0)) * 60
              + snd (moveBlock s (getTimeFromY s (clientY e) r) (blockDragPayload ev0))
        \<and> fst (moveBlock s (getTimeFromY s (clientY e) r) (blockDragPayload ev0)) * 60
            + snd (moveBlock s (getTimeFromY s (clientY e) r) (blockDragPayload ev0))
            + duration ev0
          \<le> (startH s + len s) * 60)
    \<and> startH s * 60
          \<le> fst (moveBlock s (getTimeFromY s (clientY e) r) (blockDragPayload ev0)) * 60
            + snd (moveBlock s (getTimeFromY s (clientY e) r) (blockDragPayload ev0))
    \<and> (0 \<le> len s \<and> len s * 60 < duration ev0 \<longrightarrow>
          moveBlock s (getTimeFromY s (clientY e) r) (blockDragPayload ev0) = (startH s, 0))"
proof -
  let ?hm = "getTimeFromY s (clientY e) r"
  let ?mb = "moveBlock s ?hm (blockDragPayload ev0)"
  note ev = drop_block_events[OF g p i, of newId]
  have keep: "map ev_id (ov_schedEvents (handleScheduleDrop newId e s)) = map ev_id (ov_schedEvents s)"
    "map title (ov_schedEvents (handleScheduleDrop newId e s)) = map title (ov_schedEvents s)"
    "map duration (ov_schedEvents (handleScheduleDrop newId e s)) = map duration (ov_schedEvents s)"
    "map ev_type (ov_schedEvents (handleScheduleDrop newId e s)) = map ev_type (ov_schedEvents s)"
    "map itemRef (ov_schedEvents (handleScheduleDrop newId e s)) = map itemRef (ov_schedEvents s)"
    "map persistent (ov_schedEvents (handleScheduleDrop newId e s))
         = map persistent (ov_schedEvents s)"
    unfolding ev by (rule map_moved, simp)+
  have fit: "1 \<le> len s \<and> 0 < duration ev0 \<and> 5 dvd duration ev0 \<and> duration ev0 \<le> len s * 60 \<longrightarrow>
          fst ?mb * 60 + snd ?mb
          = startH s * 60 + min ((fst ?hm - startH s) * 60 + snd ?hm) (len s * 60 - duration ev0)
        \<and> startH s * 60 \<le> fst ?mb * 60 + snd ?mb
        \<and> fst ?mb * 60 + snd ?mb + duration ev0 \<le> (startH s + len s) * 60"
  proof (intro impI, elim conjE)
    assume a: "1 \<le> len s" "0 < duration ev0" "5 dvd duration ev0" "duration ev0 \<le> len s * 60"
    note rg = timeFromY_range[OF a(1), where sH="startH s" and H=HOUR_HEIGHT and y="clientY e"
        and rtop="rect_top r", folded getTimeFromY_def]
    have pd: "p_duration (blockDragPayload ev0) = Some (duration ev0)"
      by (simp add: blockDragPayload_def)
    have eq: "fst ?mb * 60 + snd ?mb
          = startH s * 60 + min ((fst ?hm - startH s) * 60 + snd ?hm) (len s * 60 - duration ev0)"
      by (rule moveBlock_fits[OF rg pd a(2,3,4)])
    have lo: "0 \<le> (fst ?hm - startH s) * 60 + snd ?hm" using rg by simp
    show "fst ?mb * 60 + snd ?mb
          = startH s * 60 + min ((fst ?hm - startH s) * 60 + snd ?hm) (len s * 60 - duration ev0)
        \<and> startH s * 60 \<le> fst ?mb * 60 + snd ?mb
        \<and> fst ?mb * 60 + snd ?mb + duration ev0 \<le> (startH s + len s) * 60"
      unfolding eq using lo a(4) by (simp add: algebra_simps)
  qed
  have low: "startH s * 60 \<le> fst ?mb * 60 + snd ?mb"
    by (rule moveBlock_lower)
  have long: "0 \<le> len s \<and> len s * 60 < duration ev0 \<longrightarrow> ?mb = (startH s, 0)"
  proof (intro impI, elim conjE)
    assume "0 \<le> len s" "len s * 60 < duration ev0"
    moreover have "p_duration (blockDragPayload ev0) = Some (duration ev0)"
      by (simp add: blockDragPayload_def)
    ultimately show "?mb = (startH s, 0)" by (intro moveBlock_too_long)
  qed
  from ev keep fit low long show ?thesis by (intro conjI)
qed

text \<open>
  The event at 9:00 of the example view, lasting 30 minutes, dropped where the pointer
  resolves to 14:15; and an event of 600 minutes dropped at the same place of a
  schedule of 8 hours, which is put at 9:00.
\<close>

theorem drop_moves_block_witness:
  "gridRef ex_view = Some \<lparr>rect_top = 100, rect_left = 0\<rparr>
   \<and> dt_json (ex_drag 442 (blockDragPayload (ex_event ''a'' (Some True))))
       = ParsedValue (blockDragPayload (ex_event ''a'' (Some True)))
   \<and> ev_id (ex_event ''a'' (Some True)) \<noteq> []
   \<and> 1 \<le> len ex_view \<and> 0 < duration (ex_event ''a'' (Some True))
   \<and> 5 dvd duration (ex_event ''a'' (Some True))
   \<and> duration (ex_event ''a'' (Some True)) \<le> len ex_view * 60
   \<and> ov_schedEvents (handleScheduleDrop ''n1''
        (ex_drag 442 (blockDragPayload (ex_event ''a'' (Some True)))) ex_view)
      = [(ex_event ''a'' (Some True))\<lparr>hour := 14, minute := 15\<rparr>, ex_event ''b'' None]
   \<and> 0 \<le> len ex_view600
   \<and> len ex_view600 * 60 < duration ((ex_event ''b'' None)\<lparr>duration := 600\<rparr>)
   \<and> ov_schedEvents (handleScheduleDrop ''n1''
        (ex_drag 442 (blockDragPayload ((ex_event ''b'' None)\<lparr>duration := 600\<rparr>))) ex_view600)
      = [(ex_event ''b'' None)\<lparr>duration := 600, hour := 9, minute := 0\<rparr>]"
proof -
  have g: "gridRef ex_view = Some \<lparr>rect_top = 100, rect_left = 0\<rparr>"
    and g6: "gridRef ex_view600 = Some \<lparr>rect_top = 100, rect_left = 0\<rparr>"
    by (simp_all add: ex_view_def ex_view600_def)
  have p: "\<And>d. dt_json (ex_drag 442 d) = ParsedValue d"
    by (simp add: ex_drag_def)
  have i: "ev_id (ex_event ''a'' (Some True)) \<noteq> []"
    and i6: "ev_id ((ex_event ''b'' None)\<lparr>duration := 600\<rparr>) \<noteq> []"
    by (simp_all add: ev_id_ex_event)
  have n: "1 \<le> len ex_view \<and> 0 < duration (ex_event ''a'' (Some True))
   \<and> 5 dvd duration (ex_event ''a'' (Some True))
   \<and> duration (ex_event ''a'' (Some True)) \<le> len ex_view * 60"
    by (simp add: ex_view_def ex_event_def)
  have n6: "0 \<le> len ex_view600
      \<and> len ex_view600 * 60 < duration ((ex_event ''b'' None)\<lparr>duration := 600\<rparr>)"
    and s6: "startH ex_view600 = 9"
    by (simp_all add: ex_view600_def ex_view_def)
  have t: "getTimeFromY ex_view 442 \<lparr>rect_top = 100, rect_left = 0\<rparr> = (14, 15)"
    by code_simp
  have mb: "moveBlock ex_view (14, 15) (blockDragPayload (ex_event ''a'' (Some True))) = (14, 15)"
    by code_simp
  have evs: "ov_schedEvents ex_view = [ex_event ''a'' (Some True), ex_event ''b'' None]"
    and evs6: "ov_schedEvents ex_view600 = [(ex_event ''b'' None)\<lparr>duration := 600\<rparr>]"
    by (simp_all add: ex_view_def ex_view600_def)
  have cy: "\<And>d. clientY (ex_drag 442 d) = 442"
    by (simp add: ex_drag_def)
  from drop_moves_block[OF g p i, of "''n1''"]
  have a: "ov_schedEvents (handleScheduleDrop ''n1''
        (ex_drag 442 (blockDragPayload (ex_event ''a'' (Some True)))) ex_view)
      = [(ex_event ''a'' (Some True))\<lparr>hour := 14, minute := 15\<rparr>, ex_event ''b'' None]"
    by (simp add: cy t mb evs ev_id_ex_event)
  note L = drop_moves_block[OF g6 p i6, of "''n1''"]
  from L n6 have m6: "moveBlock ex_view600
        (getTimeFromY ex_view600
           (clientY (ex_drag 442 (blockDragPayload ((ex_event ''b'' None)\<lparr>duration := 600\<rparr>))))
           \<lparr>rect_top = 100, rect_left = 0\<rparr>)
        (blockDragPayload ((ex_event ''b'' None)\<lparr>duration := 600\<rparr>)) = (startH ex_view600, 0)"
    by blast
  from L have "ov_schedEvents (handleScheduleDrop ''n1''
        (ex_drag 442 (blockDragPayload ((ex_event ''b'' None)\<lparr>duration := 600\<rparr>))) ex_view600)
      = map (\<lambda>ev. if ev_id ev = ev_id ((ex_event ''b'' None)\<lparr>duration := 600\<rparr>)
                      then ev\<lparr>hour := fst (startH ex_view600, 0::int),
                              minute := snd (startH ex_view600, 0::int)\<rparr>
                      else ev)
               (ov_schedEvents ex_view600)"
    unfolding m6 by blast
  then have b: "ov_schedEvents (handleScheduleDrop ''n1''
        (ex_drag 442 (blockDragPayload ((ex_event ''b'' None)\<lparr>duration := 600\<rparr>))) ex_view600)
      = [(ex_event ''b'' None)\<lparr>duration := 600, hour := 9, minute := 0\<rparr>]"
    by (simp add: evs6 s6)
  from g p i n a n6 b show ?thesis by (intro conjI) simp_all
qed

text \<open>
  A 7-minute event dropped at the bottom of a schedule from 9 to 17 is stored at 16:55
  and ends at 17:02, after the end of the schedule.  A 30-minute event dropped at a
  pointer time of 16:55 is stored at 16:30, although 16:55 plus 30 minutes lies within
  the day: the bound is the visible schedule, not the day.
\<close>

theorem drop_block_counterexample:
  "getTimeFromY ex_view7 612 \<lparr>rect_top = 100, rect_left = 0\<rparr> = (16, 55)
   \<and> map hour (ov_schedEvents (handleScheduleDrop ''n1''
        (ex_drag 612 (blockDragPayload ((ex_event ''b'' None)\<lparr>duration := 7\<rparr>))) ex_view7)) = [16]
   \<and> map minute (ov_schedEvents (handleScheduleDrop ''n1''
        (ex_drag 612 (blockDragPayload ((ex_event ''b'' None)\<lparr>duration := 7\<rparr>))) ex_view7)) = [55]
   \<and> (startH ex_view7 + len ex_view7) * 60 < 16 * 60 + 55 + 7
   \<and> getTimeFromY ex_view 612 \<lparr>rect_top = 100, rect_left = 0\<rparr> = (16, 55)
   \<and> map hour (ov_schedEvents (handleScheduleDrop ''n1''
        (ex_drag 612 (blockDragPayload (ex_event ''a'' (Some True)))) ex_view)) = [16, 9]
   \<and> map minute (ov_schedEvents (handleScheduleDrop ''n1''
        (ex_drag 612 (blockDragPayload (ex_event ''a'' (Some True)))) ex_view)) = [30, 0]
   \<and> 16 * 60 + 55 + duration (ex_event ''a'' (Some True)) \<le> 24 * 60"
proof -
  have g7: "gridRef ex_view7 = Some \<lparr>rect_top = 100, rect_left = 0\<rparr>"
    and g: "gridRef ex_view = Some \<lparr>rect_top = 100, rect_left = 0\<rparr>"
    and e7: "ov_schedEvents ex_view7 = [(ex_event ''b'' None)\<lparr>duration := 7\<rparr>]"
    and e: "ov_schedEvents ex_view = [ex_event ''a'' (Some True), ex_event ''b'' None]"
    and w7: "(startH ex_view7 + len ex_view7) * 60 < 16 * 60 + 55 + 7"
    by (simp_all add: ex_view7_def ex_view_def)
  have t7: "getTimeFromY ex_view7 612 \<lparr>rect_top = 100, rect_left = 0\<rparr> = (16, 55)"
    and t: "getTimeFromY ex_view 612 \<lparr>rect_top = 100, rect_left = 0\<rparr> = (16, 55)"
    by code_simp+
  have m7: "moveBlock ex_view7 (16, 55) (blockDragPayload ((ex_event ''b'' None)\<lparr>duration := 7\<rparr>))
      = (16, 55)"
    and m: "moveBlock ex_view (16, 55) (blockDragPayload (ex_event ''a'' (Some True))) = (16, 30)"
    by code_simp+
  have cy: "\<And>d. clientY (ex_drag 612 d) = 612" "\<And>d. dt_json (ex_drag 612 d) = ParsedValue d"
    by (simp_all add: ex_drag_def)
  have h0: "hour (ex_event ''b'' None) = 9" "minute (ex_event ''b'' None) = 0"
    "duration (ex_event ''a'' (Some True)) = 30"
    by (simp_all add: ex_event_def)
  have a: "ov_schedEvents (handleScheduleDrop ''n1''
        (ex_drag 612 (blockDragPayload ((ex_event ''b'' None)\<lparr>duration := 7\<rparr>))) ex_view7)
      = [(ex_event ''b'' None)\<lparr>duration := 7, hour := 16, minute := 55\<rparr>]"
    by (simp add: drop_block_events[OF g7 cy(2)] ev_id_ex_event cy t7 m7 e7)
  have b: "ov_schedEvents (handleScheduleDrop ''n1''
        (ex_drag 612 (blockDragPayload (ex_event ''a'' (Some True)))) ex_view)
      = [(ex_event ''a'' (Some True))\<lparr>hour := 16, minute := 30\<rparr>, ex_event ''b'' None]"
    by (simp add: drop_block_events[OF g cy(2)] ev_id_ex_event cy t m e)
  show ?thesis
    unfolding a b using t7 t w7 by (simp add: h0)
qed


end
